theory Spec2Isabelle
  imports Main
begin

section \<open>Data model\<close>

text \<open>
  A row of an input file, as \<^verbatim>\<open>csv.DictReader\<close> yields it: the cells of one line
  keyed by the column names of the header, in header order. A cell is a string; rows are
  taken to have as many cells as the header has columns.

  A string of the program is a text; it is modelled by the list of the bytes of its UTF-8
  encoding, the encoding in which the files are read. Equality, emptiness, concatenation
  and the test for an ASCII character such as \<^verbatim>\<open>-\<close> are the same on a text and on its
  encoding. Only the date parser looks at the characters of a string.

  A task is the dictionary \<^verbatim>\<open>task\<close> built from a row; the index of existing tasks
  (\<^verbatim>\<open>self.existing_tasks\<close>) maps a category to the identifier of its page.
\<close>

type_synonym row = "(string \<times> string) list"

type_synonym task = "string \<rightharpoonup> string"

type_synonym index = "string \<rightharpoonup> string"

definition COLUMN_MAPPING :: "(string \<times> string) list" where
  "COLUMN_MAPPING =
    [(''Week/Milestone'', ''Sprint''),
     (''Task Name'', ''Category''),
     (''Description'', ''Task Description''),
     (''Assigned LLM Tools'', ''Tools/APIs Required''),
     (''Files Created'', ''API/Tokens Required''),
     (''Dependencies'', ''Dependencies''),
     (''Enhancements'', ''Notes/Comments''),
     (''Acceptance Criteria'', ''Notes/Comments''),
     (''Status'', ''Status''),
     (''Priority'', ''Priority''),
     (''Due Date'', ''Due Date''),
     (''Estimated Effort'', ''Estimated Effort'')]"

text \<open>Python's truth value of \<^verbatim>\<open>d.get(k)\<close>: false for a missing key and for the empty string.\<close>

definition truthy :: "string option \<Rightarrow> bool" where
  "truthy v = (case v of None \<Rightarrow> False | Some s \<Rightarrow> s \<noteq> [])"

text \<open>\<^verbatim>\<open>d.get(k, default)\<close>: the default only for a missing key.\<close>

definition get_default :: "task \<Rightarrow> string \<Rightarrow> string \<Rightarrow> string" where
  "get_default task_data k d = (case task_data k of None \<Rightarrow> d | Some v \<Rightarrow> v)"

section \<open>Schema normalizer\<close>

text \<open>
  The body of the loop over \<^verbatim>\<open>row.items()\<close> in \<^verbatim>\<open>process_csv_files\<close>: one field of
  the row is stored into the task under its standardized name.
\<close>

definition standardize_field :: "task \<Rightarrow> string \<times> string \<Rightarrow> task" where
  "standardize_field task kv =
    (case kv of (old_key, value) \<Rightarrow>
      (case map_of COLUMN_MAPPING old_key of
         Some new_key \<Rightarrow>
           (case task new_key of
              Some old \<Rightarrow>
                if new_key = ''Notes/Comments'' \<and> value \<noteq> []
                then task(new_key \<mapsto> old @ '' | '' @ value)
                else task(new_key \<mapsto> value)
            | None \<Rightarrow> task(new_key \<mapsto> value))
       | None \<Rightarrow> task(old_key \<mapsto> value)))"

definition standardize_row :: "row \<Rightarrow> task" where
  "standardize_row r = foldl standardize_field Map.empty r"

text \<open>The fallback \<^verbatim>\<open>if "Category" not in task and "Task Name" in task\<close>.\<close>

definition ensure_category :: "task \<Rightarrow> task" where
  "ensure_category task =
    (if task ''Category'' = None \<and> task ''Task Name'' \<noteq> None
     then task(''Category'' := task ''Task Name'')
     else task)"

definition normalize_row :: "row \<Rightarrow> task" where
  "normalize_row r = ensure_category (standardize_row r)"

section \<open>Reading the input files\<close>

text \<open>
  An input file is the list of rows the reader yields from it, and whether opening or
  reading it ended in an exception (the handler around the file prints a message and the
  loop goes on with the next file; the tasks appended before the exception stay).
\<close>

datatype csv_file = Csv_file (rows: "row list") (read_error: bool)

datatype message =
    Duplicate_warning string
  | File_error
  | Updated_task "string option"
  | Created_task "string option"
  | Task_error "string option"

record read_state =
  all_tasks :: "task list"
  unique_categories :: "string set"
  printed :: "message list"

definition read_row :: "read_state \<Rightarrow> row \<Rightarrow> read_state" where
  "read_row st r =
    (let task = normalize_row r in
     case task ''Category'' of
       None \<Rightarrow> st
     | Some category \<Rightarrow>
         if category = [] then st
         else st\<lparr> all_tasks := all_tasks st @ [task],
                  unique_categories := insert category (unique_categories st),
                  printed := printed st @
                    (if category \<in> unique_categories st then [Duplicate_warning category] else []) \<rparr>)"

definition read_file :: "read_state \<Rightarrow> csv_file \<Rightarrow> read_state" where
  "read_file st f =
    (let st' = foldl read_row st (rows f) in
     if read_error f then st'\<lparr> printed := printed st' @ [File_error] \<rparr> else st')"

definition read_files :: "csv_file list \<Rightarrow> read_state" where
  "read_files files =
    foldl read_file \<lparr> all_tasks = [], unique_categories = {}, printed = [] \<rparr> files"

section \<open>Translation of a task to remote properties\<close>

datatype notion_value = Title string | Rich_text string | Select string | Date string

type_synonym properties = "(string \<times> notion_value) list"

subsection \<open>The library's date parser and formatter\<close>

text \<open>
  \<^verbatim>\<open>datetime.strptime(s, "%m/%d/%Y")\<close> compiles the format to the regular expression
  \<^verbatim>\<open>(1[0-2]|0[1-9]|[1-9])/(3[0-1]|[1-2]\d|0[1-9]|[1-9]| [1-9])/(\d\d\d\d)\<close>, matches it
  against a prefix of the string, raises \<^verbatim>\<open>ValueError\<close> when nothing matches or when the
  match leaves characters over, and then builds the date, which raises \<^verbatim>\<open>ValueError\<close>
  for the year 0 and for a day the month does not have.

  A matcher returns every way of matching a prefix of its input, as the value read and the
  rest of the input, in the order in which the backtracking engine tries them.
\<close>

datatype error = ValueError | TransportError

text \<open>
  The character classes of the pattern, such as \<^verbatim>\<open>[0-2]\<close> and \<^verbatim>\<open>[1-9]\<close>, are ranges of
  code points: they match the digits \<^verbatim>\<open>0\<close> to \<^verbatim>\<open>9\<close> of ASCII and no other character.
\<close>

definition ascii_digit :: "char \<Rightarrow> nat option" where
  "ascii_digit c = map_of
    [(CHR ''0'', 0), (CHR ''1'', 1), (CHR ''2'', 2), (CHR ''3'', 3), (CHR ''4'', 4),
     (CHR ''5'', 5), (CHR ''6'', 6), (CHR ''7'', 7), (CHR ''8'', 8), (CHR ''9'', 9)] c"

definition digit_in :: "nat \<Rightarrow> nat \<Rightarrow> string \<Rightarrow> (nat \<times> string) list" where
  "digit_in lo hi s =
    (case s of
       [] \<Rightarrow> []
     | c # rest \<Rightarrow>
         (case ascii_digit c of
            None \<Rightarrow> []
          | Some n \<Rightarrow> if lo \<le> n \<and> n \<le> hi then [(n, rest)] else []))"

text \<open>
  \<^verbatim>\<open>\d\<close> matches one character that is a decimal digit of any script, and \<^verbatim>\<open>int\<close> reads
  each such digit by its value. \<open>code_point\<close> reads the first character of a text off its
  encoding; it has no result on bytes that do not start a well-formed character, which no
  text has. The decimal digits of the character database of the library (Unicode 14.0)
  come in 66 runs of ten consecutive code points, each run holding the digits of one
  script in the order of their values 0 to 9; \<open>decimal_zeros\<close> lists the code point of the
  zero of every run.
\<close>

definition continuation :: "char \<Rightarrow> nat option" where
  "continuation c =
    (if 128 \<le> (of_char c :: nat) \<and> (of_char c :: nat) < 192
     then Some (of_char c - 128) else None)"

definition code_point :: "string \<Rightarrow> (nat \<times> string) option" where
  "code_point s =
    (case s of
       [] \<Rightarrow> None
     | c # rest \<Rightarrow>
         (let b = (of_char c :: nat) in
          if b < 128 then Some (b, rest)
          else if 194 \<le> b \<and> b < 224 then
            (case rest of
               c1 # r1 \<Rightarrow>
                 (case continuation c1 of
                    Some x1 \<Rightarrow> Some ((b - 192) * 64 + x1, r1)
                  | None \<Rightarrow> None)
             | _ \<Rightarrow> None)
          else if 224 \<le> b \<and> b < 240 then
            (case rest of
               c1 # c2 # r2 \<Rightarrow>
                 (case (continuation c1, continuation c2) of
                    (Some x1, Some x2) \<Rightarrow>
                      (let cp = (b - 224) * 4096 + x1 * 64 + x2 in
                       if 2048 \<le> cp \<and> \<not> (55296 \<le> cp \<and> cp < 57344)
                       then Some (cp, r2) else None)
                  | _ \<Rightarrow> None)
             | _ \<Rightarrow> None)
          else if 240 \<le> b \<and> b < 245 then
            (case rest of
               c1 # c2 # c3 # r3 \<Rightarrow>
                 (case (continuation c1, continuation c2, continuation c3) of
                    (Some x1, Some x2, Some x3) \<Rightarrow>
                      (let cp = (b - 240) * 262144 + x1 * 4096 + x2 * 64 + x3 in
                       if 65536 \<le> cp \<and> cp < 1114112 then Some (cp, r3) else None)
                  | _ \<Rightarrow> None)
             | _ \<Rightarrow> None)
          else None))"

definition decimal_zeros :: "nat list" where
  "decimal_zeros =
    [48, 1632, 1776, 1984, 2406, 2534, 2662, 2790, 2918, 3046, 3174, 3302, 3430, 3558,
     3664, 3792, 3872, 4160, 4240, 6112, 6160, 6470, 6608, 6784, 6800, 6992, 7088, 7232,
     7248, 42528, 43216, 43264, 43472, 43504, 43600, 44016, 65296, 66720, 68912, 69734,
     69872, 69942, 70096, 70384, 70736, 70864, 71248, 71360, 71472, 71904, 72016, 72784,
     73040, 73120, 92768, 92864, 93008, 120782, 120792, 120802, 120812, 120822, 123200,
     123632, 125264, 130032]"

definition decimal_value :: "nat \<Rightarrow> nat option" where
  "decimal_value cp =
    (case find (\<lambda>zero. zero \<le> cp \<and> cp < zero + 10) decimal_zeros of
       None \<Rightarrow> None
     | Some zero \<Rightarrow> Some (cp - zero))"

definition decimal :: "string \<Rightarrow> (nat \<times> string) list" where
  "decimal s =
    (case code_point s of
       None \<Rightarrow> []
     | Some (cp, rest) \<Rightarrow>
         (case decimal_value cp of None \<Rightarrow> [] | Some n \<Rightarrow> [(n, rest)]))"

definition literal :: "char \<Rightarrow> string \<Rightarrow> string list" where
  "literal c s = (case s of [] \<Rightarrow> [] | x # rest \<Rightarrow> if x = c then [rest] else [])"

text \<open>Two digits in a row, each matched by its own matcher, read as a number.\<close>

definition two_digits ::
  "(string \<Rightarrow> (nat \<times> string) list) \<Rightarrow> (string \<Rightarrow> (nat \<times> string) list) \<Rightarrow>
   string \<Rightarrow> (nat \<times> string) list" where
  "two_digits tens units s =
    concat (map (\<lambda>(a, r1). map (\<lambda>(b, r2). (10 * a + b, r2)) (units r1)) (tens s))"

definition month_re :: "string \<Rightarrow> (nat \<times> string) list" where
  "month_re s =
    two_digits (digit_in 1 1) (digit_in 0 2) s @ two_digits (digit_in 0 0) (digit_in 1 9) s @
    digit_in 1 9 s"

definition day_re :: "string \<Rightarrow> (nat \<times> string) list" where
  "day_re s =
    two_digits (digit_in 3 3) (digit_in 0 1) s @ two_digits (digit_in 1 2) decimal s @
    two_digits (digit_in 0 0) (digit_in 1 9) s @ digit_in 1 9 s @
    concat (map (digit_in 1 9) (literal CHR '' '' s))"

definition year_re :: "string \<Rightarrow> (nat \<times> string) list" where
  "year_re s =
    concat (map (\<lambda>(hi, r1). map (\<lambda>(lo, r2). (100 * hi + lo, r2)) (two_digits decimal decimal r1))
                (two_digits decimal decimal s))"

definition date_re :: "string \<Rightarrow> ((nat \<times> nat \<times> nat) \<times> string) list" where
  "date_re s =
    concat (map (\<lambda>(m, r1).
      concat (map (\<lambda>r2.
        concat (map (\<lambda>(d, r3).
          concat (map (\<lambda>r4.
            map (\<lambda>(y, r5). ((y, m, d), r5)) (year_re r4))
            (literal CHR ''/'' r3)))
          (day_re r2)))
        (literal CHR ''/'' r1)))
      (month_re s))"

definition is_leap :: "nat \<Rightarrow> bool" where
  "is_leap year = (year mod 4 = 0 \<and> (year mod 100 \<noteq> 0 \<or> year mod 400 = 0))"

definition days_in_month :: "nat \<Rightarrow> nat \<Rightarrow> nat" where
  "days_in_month year month =
    (if month = 2 \<and> is_leap year then 29
     else if month = 2 then 28
     else if month \<in> {4, 6, 9, 11} then 30
     else 31)"

text \<open>The result of parsing is the date as (year, month, day).\<close>

definition strptime :: "string \<Rightarrow> error + (nat \<times> nat \<times> nat)" where
  "strptime s =
    (case date_re s of
       [] \<Rightarrow> Inl ValueError
     | ((y, m, d), rest) # _ \<Rightarrow>
         if rest \<noteq> [] then Inl ValueError
         else if y < 1 then Inl ValueError
         else if d < 1 \<or> days_in_month y m < d then Inl ValueError
         else Inr (y, m, d))"

text \<open>
  \<^verbatim>\<open>dt.strftime("%Y-%m-%d")\<close> hands the format to \<^verbatim>\<open>strftime\<close> of the C library, which
  writes the month and the day with two digits and the year as a plain decimal number:
  the GNU C library does not pad it, so a year below 1000 comes out with fewer than four
  digits (\<^verbatim>\<open>999-03-15\<close>). \<open>pad4\<close> is the year as the parser wants it, with four digits.
\<close>

definition digit_char :: "nat \<Rightarrow> char" where
  "digit_char n = ''0123456789'' ! (n mod 10)"

definition pad2 :: "nat \<Rightarrow> string" where
  "pad2 n = [digit_char (n div 10), digit_char n]"

definition pad4 :: "nat \<Rightarrow> string" where
  "pad4 n = pad2 (n div 100) @ pad2 n"

fun unpadded :: "nat \<Rightarrow> string" where
  "unpadded n = (if n < 10 then [digit_char n] else unpadded (n div 10) @ [digit_char n])"

declare unpadded.simps [simp del]

definition strftime :: "nat \<times> nat \<times> nat \<Rightarrow> string" where
  "strftime dt = (case dt of (y, m, d) \<Rightarrow> unpadded y @ ''-'' @ pad2 m @ ''-'' @ pad2 d)"

subsection \<open>\<^verbatim>\<open>_convert_to_notion_properties\<close>\<close>

definition optional_prop :: "string \<Rightarrow> (string \<Rightarrow> notion_value) \<Rightarrow> string \<Rightarrow> properties" where
  "optional_prop key mk v = (if v \<noteq> [] then [(key, mk v)] else [])"

definition due_date_prop :: "string \<Rightarrow> properties" where
  "due_date_prop due_date =
    (if due_date \<noteq> [] then
       (if CHR ''-'' \<notin> set due_date then
          (case strptime due_date of
             Inl e \<Rightarrow> []
           | Inr dt \<Rightarrow> [(''Due Date'', Date (strftime dt))])
        else [(''Due Date'', Date due_date)])
     else [])"

definition convert_to_notion_properties :: "task \<Rightarrow> properties" where
  "convert_to_notion_properties task_data =
    [(''Category'', Title (get_default task_data ''Category'' ''''))] @
    optional_prop ''Sprint'' Rich_text (get_default task_data ''Sprint'' '''') @
    optional_prop ''Task Description'' Rich_text (get_default task_data ''Task Description'' '''') @
    optional_prop ''Tools/APIs Required'' Rich_text
      (get_default task_data ''Tools/APIs Required'' '''') @
    optional_prop ''API/Tokens Required'' Rich_text
      (get_default task_data ''API/Tokens Required'' '''') @
    optional_prop ''Status'' Select (get_default task_data ''Status'' ''Not Started'') @
    optional_prop ''Priority'' Select (get_default task_data ''Priority'' ''Normal'') @
    due_date_prop (get_default task_data ''Due Date'' '''') @
    optional_prop ''Estimated Effort'' Select (get_default task_data ''Estimated Effort'' '''') @
    optional_prop ''Dependencies'' Rich_text (get_default task_data ''Dependencies'' '''') @
    optional_prop ''Notes/Comments'' Rich_text (get_default task_data ''Notes/Comments'' '''')"

section \<open>Remote index builder\<close>

text \<open>
  A record of the remote collection, as far as \<^verbatim>\<open>_fetch_existing_tasks\<close> reads it: its
  identifier and the segments of the title of its \<^verbatim>\<open>Category\<close> property, each segment
  given by its text content when it has one (a record without the property has no segment).
  A response to a query either raises (\<^verbatim>\<open>raise_for_status\<close>) or carries the data of one
  page of results.
\<close>

record page =
  page_id :: string
  title :: "string option list"

record query_data =
  query_results :: "page list"
  has_more :: bool
  next_cursor :: "string option"

definition register_page :: "index \<Rightarrow> page \<Rightarrow> index" where
  "register_page existing p =
    (case title p of
       [] \<Rightarrow> existing
     | seg # _ \<Rightarrow>
         (case seg of
            None \<Rightarrow> existing
          | Some task_name \<Rightarrow>
              if task_name \<noteq> [] then existing(task_name \<mapsto> page_id p) else existing))"

text \<open>The payload of a request: the cursor is sent only when \<^verbatim>\<open>if start_cursor\<close> holds.\<close>

definition payload :: "string option \<Rightarrow> string option" where
  "payload start_cursor = (if truthy start_cursor then start_cursor else None)"

record fetch_state =
  existing_tasks :: index
  start_cursor :: "string option"
  requests :: "string option list"

text \<open>
  The \<^verbatim>\<open>while has_more\<close> loop. The remote service is given by the responses it makes to
  the successive requests; each turn of the loop sends one request and consumes one
  response. The loop may go on for as long as the service answers \<^verbatim>\<open>has_more\<close>: when the
  responses given are used up before that, there is no result (\<open>None\<close>).
\<close>

fun fetch_loop :: "fetch_state \<Rightarrow> (error + query_data) list \<Rightarrow> (error + fetch_state) option" where
  "fetch_loop st [] = None"
| "fetch_loop st (response # later) =
    (let st1 = st\<lparr> requests := requests st @ [payload (start_cursor st)] \<rparr> in
     case response of
       Inl e \<Rightarrow> Some (Inl e)
     | Inr data \<Rightarrow>
         (let st2 = st1\<lparr> existing_tasks :=
                      foldl register_page (existing_tasks st1) (query_results data) \<rparr> in
          if has_more data
          then fetch_loop (st2\<lparr> start_cursor := next_cursor data \<rparr>) later
          else Some (Inr st2)))"

definition fetch_existing_tasks :: "(error + query_data) list \<Rightarrow> (error + fetch_state) option" where
  "fetch_existing_tasks responses =
    fetch_loop \<lparr> existing_tasks = Map.empty, start_cursor = None, requests = [] \<rparr> responses"

section \<open>Sync driver\<close>

text \<open>
  A call to the remote service: \<^verbatim>\<open>create_task\<close> posts the properties of a task,
  \<^verbatim>\<open>update_task\<close> patches the page with the given identifier. The service is a machine
  with a state of its own that answers a call by succeeding or by raising; the driver
  ignores the body of a successful answer.
\<close>

datatype call = Create_task properties | Update_task string properties

record tally =
  total :: nat
  created :: nat
  updated :: nat
  errors :: nat

record 'r sync_state =
  results :: tally
  calls :: "call list"
  remote :: 'r
  messages :: "message list"

definition category_in :: "string option \<Rightarrow> index \<Rightarrow> string option" where
  "category_in category existing = (case category of None \<Rightarrow> None | Some c \<Rightarrow> existing c)"

text \<open>
  The call the body of the upload loop makes for a task, if it makes one: it depends on the
  mode, on the index as built at start-up and on the task only.
\<close>

definition planned_call :: "string \<Rightarrow> index \<Rightarrow> task \<Rightarrow> call option" where
  "planned_call mode existing task =
    (case category_in (task ''Category'') existing of
       Some existing_id \<Rightarrow>
         if mode \<in> set [''update'', ''both'']
         then Some (Update_task existing_id (convert_to_notion_properties task))
         else None
     | None \<Rightarrow>
         if mode \<in> set [''create'', ''both'']
         then Some (Create_task (convert_to_notion_properties task))
         else None)"

definition count_success :: "call \<Rightarrow> tally \<Rightarrow> tally" where
  "count_success c t =
    (case c of
       Create_task _ \<Rightarrow> t\<lparr> created := created t + 1 \<rparr>
     | Update_task _ _ \<Rightarrow> t\<lparr> updated := updated t + 1 \<rparr>)"

definition success_message :: "call \<Rightarrow> string option \<Rightarrow> message" where
  "success_message c category =
    (case c of Create_task _ \<Rightarrow> Created_task category | Update_task _ _ \<Rightarrow> Updated_task category)"

text \<open>The body of \<^verbatim>\<open>for task in all_tasks\<close>, with its \<^verbatim>\<open>try\<close> and \<^verbatim>\<open>except\<close>.\<close>

definition sync_task ::
  "string \<Rightarrow> index \<Rightarrow> ('r \<Rightarrow> call \<Rightarrow> bool \<times> 'r) \<Rightarrow> 'r sync_state \<Rightarrow> task \<Rightarrow> 'r sync_state" where
  "sync_task mode existing respond st task =
    (case planned_call mode existing task of
       None \<Rightarrow> st
     | Some c \<Rightarrow>
         (case respond (remote st) c of
            (True, r') \<Rightarrow>
              st\<lparr> results := count_success c (results st),
                  calls := calls st @ [c],
                  remote := r',
                  messages := messages st @ [success_message c (task ''Category'')] \<rparr>
          | (False, r') \<Rightarrow>
              st\<lparr> results := (results st)\<lparr> errors := errors (results st) + 1 \<rparr>,
                  calls := calls st @ [c],
                  remote := r',
                  messages := messages st @ [Task_error (task ''Category'')] \<rparr>))"

definition upload_tasks ::
  "string \<Rightarrow> index \<Rightarrow> ('r \<Rightarrow> call \<Rightarrow> bool \<times> 'r) \<Rightarrow> 'r sync_state \<Rightarrow> task list \<Rightarrow> 'r sync_state" where
  "upload_tasks mode existing respond st tasks = foldl (sync_task mode existing respond) st tasks"

definition process_csv_files ::
  "csv_file list \<Rightarrow> string \<Rightarrow> index \<Rightarrow> ('r \<Rightarrow> call \<Rightarrow> bool \<times> 'r) \<Rightarrow> 'r \<Rightarrow> 'r sync_state" where
  "process_csv_files files mode existing respond r0 =
    (let st = read_files files in
     upload_tasks mode existing respond
       \<lparr> results = \<lparr> total = length (all_tasks st), created = 0, updated = 0, errors = 0 \<rparr>,
         calls = [], remote = r0, messages = printed st \<rparr>
       (all_tasks st))"

section \<open>Notions used to state the properties\<close>

text \<open>The name under which the loop over the fields of a row stores a field.\<close>

definition stored_key :: "string \<Rightarrow> string" where
  "stored_key old_key =
    (case map_of COLUMN_MAPPING old_key of Some new_key \<Rightarrow> new_key | None \<Rightarrow> old_key)"

text \<open>
  The rows of all files in reading order, the tasks that have a non-empty \<^verbatim>\<open>Category\<close>
  (those the reading loop keeps), and the number of duplicate warnings printed for a
  category.
\<close>

definition has_category :: "task \<Rightarrow> bool" where
  "has_category task = truthy (task ''Category'')"

definition category_of :: "task \<Rightarrow> string" where
  "category_of task = get_default task ''Category'' ''''"

definition all_rows :: "csv_file list \<Rightarrow> row list" where
  "all_rows files = concat (map rows files)"

definition kept_tasks :: "row list \<Rightarrow> task list" where
  "kept_tasks rs = filter has_category (map normalize_row rs)"

definition warned :: "message list \<Rightarrow> string \<Rightarrow> nat" where
  "warned ms c = count_list ms (Duplicate_warning c)"

fun is_create :: "call \<Rightarrow> bool" where
  "is_create (Create_task _) = True"
| "is_create (Update_task _ _) = False"

fun is_update :: "call \<Rightarrow> bool" where
  "is_update (Create_task _) = False"
| "is_update (Update_task _ _) = True"

text \<open>
  The entry a record of the remote collection stands for in the index: its title's first
  text segment, when there is one and it is not empty, with the record's identifier.
\<close>

definition index_entry :: "page \<Rightarrow> (string \<times> string) option" where
  "index_entry p =
    (case title p of
       [] \<Rightarrow> None
     | None # _ \<Rightarrow> None
     | Some task_name # _ \<Rightarrow> if task_name = [] then None else Some (task_name, page_id p))"

section \<open>Properties of the translation to remote properties\<close>

text \<open>
  The properties of a task are an association list in the order of insertion;
  \<open>map_of\<close> looks a property up, and \<open>None\<close> says that the key is not in the list.
\<close>

lemma map_of_optional_prop:
  "map_of (optional_prop key mk v) k = (if k = key \<and> v \<noteq> [] then Some (mk v) else None)"
  by (simp add: optional_prop_def)

lemma map_of_due_date_prop_other:
  "k \<noteq> ''Due Date'' \<Longrightarrow> map_of (due_date_prop v) k = None"
  by (simp add: due_date_prop_def split: sum.splits)

lemma status_of_properties:
  "map_of (convert_to_notion_properties task_data) ''Status'' =
    (if get_default task_data ''Status'' ''Not Started'' \<noteq> []
     then Some (Select (get_default task_data ''Status'' ''Not Started'')) else None)"
  by (simp add: convert_to_notion_properties_def map_of_optional_prop map_of_due_date_prop_other
      map_add_def)

lemma priority_of_properties:
  "map_of (convert_to_notion_properties task_data) ''Priority'' =
    (if get_default task_data ''Priority'' ''Normal'' \<noteq> []
     then Some (Select (get_default task_data ''Priority'' ''Normal'')) else None)"
  by (simp add: convert_to_notion_properties_def map_of_optional_prop map_of_due_date_prop_other
      map_add_def)

lemma due_date_of_properties:
  "map_of (convert_to_notion_properties task_data) ''Due Date'' =
    map_of (due_date_prop (get_default task_data ''Due Date'' '''')) ''Due Date''"
  by (simp add: convert_to_notion_properties_def map_of_optional_prop
      map_add_def split: option.splits)

text \<open>
  C9. A task without the key \<^verbatim>\<open>Status\<close> gets the property \<^verbatim>\<open>Status\<close> with the value
  \<^verbatim>\<open>Not Started\<close>, and one without the key \<^verbatim>\<open>Priority\<close> gets \<^verbatim>\<open>Priority\<close> with the
  value \<^verbatim>\<open>Normal\<close>; when the key is there with the empty string as its value, the
  property is left out.
\<close>

theorem status_priority_defaults:
  "(task_data ''Status'' = None \<longrightarrow>
      map_of (convert_to_notion_properties task_data) ''Status'' = Some (Select ''Not Started'')) \<and>
   (task_data ''Priority'' = None \<longrightarrow>
      map_of (convert_to_notion_properties task_data) ''Priority'' = Some (Select ''Normal'')) \<and>
   (task_data ''Status'' = Some [] \<longrightarrow>
      map_of (convert_to_notion_properties task_data) ''Status'' = None) \<and>
   (task_data ''Priority'' = Some [] \<longrightarrow>
      map_of (convert_to_notion_properties task_data) ''Priority'' = None)"
  by (simp add: status_of_properties priority_of_properties get_default_def)

theorem status_priority_defaults_witness:
  "map_of (convert_to_notion_properties Map.empty) ''Status'' = Some (Select ''Not Started'') \<and>
   map_of (convert_to_notion_properties Map.empty) ''Priority'' = Some (Select ''Normal'') \<and>
   map_of (convert_to_notion_properties [''Status'' \<mapsto> '''', ''Priority'' \<mapsto> ''''])
      ''Status'' = None \<and>
   map_of (convert_to_notion_properties [''Status'' \<mapsto> '''', ''Priority'' \<mapsto> ''''])
      ''Priority'' = None"
  using status_priority_defaults [of Map.empty]
    status_priority_defaults [of "[''Status'' \<mapsto> '''', ''Priority'' \<mapsto> '''']"]
  by simp

section \<open>Properties of the schema normalizer\<close>

lemma standardize_field_other:
  "stored_key (fst kv) \<noteq> k \<Longrightarrow> standardize_field task kv k = task k"
  by (cases kv) (auto simp: standardize_field_def stored_key_def split: option.splits)

lemma standardize_fields_other:
  "\<forall>kv \<in> set r. stored_key (fst kv) \<noteq> k \<Longrightarrow> foldl standardize_field task r k = task k"
  by (induction r arbitrary: task) (simp_all add: standardize_field_other)

lemma standardize_field_dom:
  "dom (standardize_field task kv) = insert (stored_key (fst kv)) (dom task)"
  by (cases kv) (auto simp: standardize_field_def stored_key_def split: option.splits if_splits)

lemma standardize_fields_dom:
  "dom (foldl standardize_field task r) = dom task \<union> stored_key ` fst ` set r"
  by (induction r arbitrary: task) (auto simp: standardize_field_dom)

lemma standardize_row_dom: "dom (standardize_row r) = stored_key ` fst ` set r"
  by (simp add: standardize_row_def standardize_fields_dom)

lemma stored_key_not_Task_Name: "stored_key k \<noteq> ''Task Name''"
  by (auto simp: stored_key_def COLUMN_MAPPING_def split: option.splits if_splits)

lemma ensure_category_standardize_row: "ensure_category (standardize_row r) = standardize_row r"
proof -
  have "''Task Name'' \<notin> dom (standardize_row r)"
    by (auto simp: standardize_row_dom stored_key_not_Task_Name [symmetric])
  then show ?thesis by (auto simp: ensure_category_def)
qed

lemma normalize_row_eq: "normalize_row r = standardize_row r"
  by (simp add: normalize_row_def ensure_category_standardize_row)

lemma standardize_field_fresh:
  "task (stored_key k) = None \<Longrightarrow> standardize_field task (k, v) (stored_key k) = Some v"
  by (auto simp: standardize_field_def stored_key_def split: option.splits)

lemma standardize_field_overwrite:
  "stored_key k \<noteq> ''Notes/Comments'' \<or> map_of COLUMN_MAPPING k = None \<or> v = [] \<Longrightarrow>
   standardize_field task (k, v) (stored_key k) = Some v"
  by (auto simp: standardize_field_def stored_key_def split: option.splits)

lemma standardize_field_concat:
  "map_of COLUMN_MAPPING k = Some ''Notes/Comments'' \<Longrightarrow> task ''Notes/Comments'' = Some old \<Longrightarrow>
   v \<noteq> [] \<Longrightarrow>
   standardize_field task (k, v) ''Notes/Comments'' = Some (old @ '' | '' @ v)"
  by (auto simp: standardize_field_def)

lemma standardize_row_snoc:
  "standardize_row (r @ [kv]) = standardize_field (standardize_row r) kv"
  by (simp add: standardize_row_def)

lemma standardize_row_append_other:
  "\<forall>kv \<in> set r2. stored_key (fst kv) \<noteq> k \<Longrightarrow> standardize_row (r1 @ r2) k = standardize_row r1 k"
  by (simp add: standardize_row_def standardize_fields_other)

lemma notes_sources:
  "map_of COLUMN_MAPPING k = Some ''Notes/Comments'' \<longleftrightarrow> k = ''Enhancements'' \<or> k = ''Acceptance Criteria''"
  by (auto simp: COLUMN_MAPPING_def)


lemma standardize_row_absent:
  "\<forall>kv \<in> set r. stored_key (fst kv) \<noteq> k \<Longrightarrow> standardize_row r k = None"
  by (simp add: standardize_row_def standardize_fields_other)

lemma standardize_row_split:
  assumes "\<forall>kv \<in> set r2. stored_key (fst kv) \<noteq> stored_key k"
  shows "standardize_row (r1 @ [(k, v)] @ r2) (stored_key k) =
         standardize_field (standardize_row r1) (k, v) (stored_key k)"
proof -
  have "standardize_row ((r1 @ [(k, v)]) @ r2) (stored_key k) =
        standardize_row (r1 @ [(k, v)]) (stored_key k)"
    using assms by (rule standardize_row_append_other)
  then show ?thesis by (simp add: standardize_row_snoc)
qed

lemma stored_key_notes:
  "k = ''Enhancements'' \<or> k = ''Acceptance Criteria'' \<Longrightarrow> stored_key k = ''Notes/Comments''"
  by (auto simp: stored_key_def COLUMN_MAPPING_def)

text \<open>
  C3. Two fields of the translation table that both go to \<^verbatim>\<open>Notes/Comments\<close> are joined
  with \<^verbatim>\<open> | \<close> in the order of the row. As the claim states it, for every such row, it
  fails when the later value is empty: the later field then replaces the earlier value.
\<close>

theorem notes_concatenation_counterexample:
  "normalize_row [(''Enhancements'', ''Add X''), (''Acceptance Criteria'', [])] ''Notes/Comments''
     = Some [] \<and>
   normalize_row [(''Enhancements'', ''Add X''), (''Acceptance Criteria'', [])] ''Notes/Comments''
     \<noteq> Some (''Add X'' @ '' | '' @ [])"
  by (simp add: normalize_row_def ensure_category_def standardize_row_def standardize_field_def
      COLUMN_MAPPING_def)

text \<open>
  C3, amended. In a row where \<^verbatim>\<open>Enhancements\<close> and \<^verbatim>\<open>Acceptance Criteria\<close> are the only
  fields stored under \<^verbatim>\<open>Notes/Comments\<close> and the later of the two has a non-empty value,
  the task's \<^verbatim>\<open>Notes/Comments\<close> is the earlier value, the separator \<^verbatim>\<open> | \<close> and the
  later value.
\<close>

theorem notes_concatenation:
  assumes r: "r = r1 @ [(k1, v1)] @ r2 @ [(k2, v2)] @ r3"
    and keys: "{k1, k2} = {''Enhancements'', ''Acceptance Criteria''}"
    and others: "\<forall>kv \<in> set (r1 @ r2 @ r3). stored_key (fst kv) \<noteq> ''Notes/Comments''"
    and v2: "v2 \<noteq> []"
  shows "normalize_row r ''Notes/Comments'' = Some (v1 @ '' | '' @ v2)"
proof -
  have k1: "k1 = ''Enhancements'' \<or> k1 = ''Acceptance Criteria''"
    and k2: "k2 = ''Enhancements'' \<or> k2 = ''Acceptance Criteria''"
    using keys by (auto simp: doubleton_eq_iff)
  have s1: "stored_key k1 = ''Notes/Comments''" and s2: "stored_key k2 = ''Notes/Comments''"
    using k1 k2 by (simp_all add: stored_key_notes)
  have m2: "map_of COLUMN_MAPPING k2 = Some ''Notes/Comments''"
    using k2 by (simp add: notes_sources)
  have none: "standardize_row r1 ''Notes/Comments'' = None"
    using others by (simp add: standardize_row_absent)
  have "standardize_row (r1 @ [(k1, v1)] @ r2) (stored_key k1) =
        standardize_field (standardize_row r1) (k1, v1) (stored_key k1)"
    using others s1 by (intro standardize_row_split) simp
  also have "\<dots> = Some v1"
    using standardize_field_fresh [of "standardize_row r1" k1 v1] none s1 by simp
  finally have first: "standardize_row (r1 @ [(k1, v1)] @ r2) ''Notes/Comments'' = Some v1"
    using s1 by simp
  have "standardize_row ((r1 @ [(k1, v1)] @ r2) @ [(k2, v2)] @ r3) (stored_key k2) =
        standardize_field (standardize_row (r1 @ [(k1, v1)] @ r2)) (k2, v2) (stored_key k2)"
    using others s2 by (intro standardize_row_split) simp
  also have "\<dots> = Some (v1 @ '' | '' @ v2)"
    using m2 first v2 s2 by (simp add: standardize_field_concat)
  finally show ?thesis
    using r s2 by (simp add: normalize_row_eq)
qed

theorem notes_concatenation_witness:
  "normalize_row [(''Task Name'', ''Setup DB''), (''Enhancements'', ''Add X''),
      (''Acceptance Criteria'', ''Must pass Y'')] ''Notes/Comments'' = Some ''Add X | Must pass Y''"
  using notes_concatenation [of _ "[(''Task Name'', ''Setup DB'')]" "''Enhancements''" "''Add X''"
      "[]" "''Acceptance Criteria''" "''Must pass Y''" "[]"]
  by (simp add: stored_key_def COLUMN_MAPPING_def)

lemma standardize_field_notes_nonempty:
  assumes "stored_key k = ''Notes/Comments''" and "v \<noteq> []"
  shows "\<exists>old. old \<noteq> [] \<and> standardize_field task (k, v) ''Notes/Comments'' = Some old"
  using assms
  by (auto simp: standardize_field_def stored_key_def split: option.splits)

text \<open>
  C10. When a later field of the translation table that goes to \<^verbatim>\<open>Notes/Comments\<close> has
  the empty value, it replaces what the earlier fields had accumulated there, although that
  was not empty: the value is appended only when it is non-empty.
\<close>

theorem later_empty_notes_overwrites:
  assumes r: "r = r1 @ [(k1, v1)] @ r2 @ [(k2, [])] @ r3"
    and keys: "{k1, k2} = {''Enhancements'', ''Acceptance Criteria''}"
    and others: "\<forall>kv \<in> set (r2 @ r3). stored_key (fst kv) \<noteq> ''Notes/Comments''"
    and v1: "v1 \<noteq> []"
  shows "(\<exists>old. old \<noteq> [] \<and> standardize_row (r1 @ [(k1, v1)] @ r2) ''Notes/Comments'' = Some old) \<and>
         normalize_row r ''Notes/Comments'' = Some [] \<and>
         (\<forall>task old v. task ''Notes/Comments'' = Some old \<longrightarrow>
            standardize_field task (k2, v) ''Notes/Comments'' =
              (if v \<noteq> [] then Some (old @ '' | '' @ v) else Some []))"
proof -
  have k1: "k1 = ''Enhancements'' \<or> k1 = ''Acceptance Criteria''"
    and k2: "k2 = ''Enhancements'' \<or> k2 = ''Acceptance Criteria''"
    using keys by (auto simp: doubleton_eq_iff)
  have s1: "stored_key k1 = ''Notes/Comments''" and s2: "stored_key k2 = ''Notes/Comments''"
    using k1 k2 by (simp_all add: stored_key_notes)
  have m2: "map_of COLUMN_MAPPING k2 = Some ''Notes/Comments''"
    using k2 by (simp add: notes_sources)
  have "standardize_row (r1 @ [(k1, v1)] @ r2) (stored_key k1) =
        standardize_field (standardize_row r1) (k1, v1) (stored_key k1)"
    using others s1 by (intro standardize_row_split) simp
  then have accumulated:
    "\<exists>old. old \<noteq> [] \<and> standardize_row (r1 @ [(k1, v1)] @ r2) ''Notes/Comments'' = Some old"
    using standardize_field_notes_nonempty [OF s1 v1, of "standardize_row r1"] s1 by simp
  have "standardize_row ((r1 @ [(k1, v1)] @ r2) @ [(k2, [])] @ r3) (stored_key k2) =
        standardize_field (standardize_row (r1 @ [(k1, v1)] @ r2)) (k2, []) (stored_key k2)"
    using others s2 by (intro standardize_row_split) simp
  also have "\<dots> = Some []"
    by (rule standardize_field_overwrite) simp
  finally have final: "normalize_row r ''Notes/Comments'' = Some []"
    using r s2 by (simp add: normalize_row_eq)
  have step: "\<forall>task old v. task ''Notes/Comments'' = Some old \<longrightarrow>
            standardize_field task (k2, v) ''Notes/Comments'' =
              (if v \<noteq> [] then Some (old @ '' | '' @ v) else Some [])"
    using m2 by (simp add: standardize_field_def)
  from accumulated final step show ?thesis by blast
qed

theorem later_empty_notes_overwrites_witness:
  "(\<exists>old. old \<noteq> [] \<and> standardize_row [(''Enhancements'', ''Add X'')] ''Notes/Comments'' = Some old) \<and>
   normalize_row [(''Enhancements'', ''Add X''), (''Acceptance Criteria'', [])] ''Notes/Comments''
     = Some []"
  using later_empty_notes_overwrites [of _ "[]" "''Enhancements''" "''Add X''"
      "[]" "''Acceptance Criteria''" "[]"]
  by simp

lemma map_of_stored_key:
  "map_of COLUMN_MAPPING k = Some k' \<Longrightarrow> stored_key k = k'"
  "map_of COLUMN_MAPPING k = None \<Longrightarrow> stored_key k = k"
  by (simp_all add: stored_key_def)

text \<open>
  C7. A field whose name is in the translation table is renamed, a field whose name is not
  passes through unchanged under its own name. As the claim states it, it fails for a field
  that is followed by a field stored under the same name: \<^verbatim>\<open>Sprint\<close> is not in the table
  and \<^verbatim>\<open>Week/Milestone\<close> is renamed to \<^verbatim>\<open>Sprint\<close>, so the value of the former is lost.
\<close>

theorem normalizer_pass_through_counterexample:
  "map_of COLUMN_MAPPING ''Sprint'' = None \<and>
   normalize_row [(''Sprint'', ''S1''), (''Week/Milestone'', ''W1'')] ''Sprint'' = Some ''W1'' \<and>
   normalize_row [(''Sprint'', ''S1''), (''Week/Milestone'', ''W1'')] ''Sprint'' \<noteq> Some ''S1''"
  by (simp add: normalize_row_def ensure_category_def standardize_row_def standardize_field_def
      COLUMN_MAPPING_def)

text \<open>
  C7, amended. For a field \<open>(k, v)\<close> of a row: when \<open>k\<close> is in the translation table the
  task has the canonical name of \<open>k\<close> as a key, and when it is not the task has \<open>k\<close> itself
  as a key; the task has no other keys than those the fields of the row are stored under.
  The value under that key is \<open>v\<close> provided that no later field of the row is stored under
  the same name and, for a field of the table that goes to \<^verbatim>\<open>Notes/Comments\<close>, that no
  earlier field is stored there or \<open>v\<close> is empty. The fallback sets \<^verbatim>\<open>Category\<close> from
  \<^verbatim>\<open>Task Name\<close> in a task that has the second key and not the first, and changes no other
  task.
\<close>

theorem normalizer_renames:
  assumes r: "r = r1 @ [(k, v)] @ r2"
  shows "(\<forall>k'. map_of COLUMN_MAPPING k = Some k' \<longrightarrow> k' \<in> dom (normalize_row r)) \<and>
         (map_of COLUMN_MAPPING k = None \<longrightarrow> k \<in> dom (normalize_row r)) \<and>
         dom (normalize_row r) = stored_key ` fst ` set r \<and>
         ((\<forall>kv \<in> set r2. stored_key (fst kv) \<noteq> stored_key k) \<and>
          (map_of COLUMN_MAPPING k = Some ''Notes/Comments'' \<longrightarrow>
             (\<forall>kv \<in> set r1. stored_key (fst kv) \<noteq> ''Notes/Comments'') \<or> v = []) \<longrightarrow>
          normalize_row r (stored_key k) = Some v) \<and>
         (\<forall>task c. task ''Category'' = None \<and> task ''Task Name'' = Some c \<longrightarrow>
            ensure_category task ''Category'' = Some c) \<and>
         (\<forall>task. task ''Category'' \<noteq> None \<or> task ''Task Name'' = None \<longrightarrow>
            ensure_category task = task)"
proof -
  have keys: "dom (normalize_row r) = stored_key ` fst ` set r"
    by (simp add: normalize_row_eq standardize_row_dom)
  have here: "stored_key k \<in> dom (normalize_row r)"
    unfolding keys using r by force
  have renamed: "\<forall>k'. map_of COLUMN_MAPPING k = Some k' \<longrightarrow> k' \<in> dom (normalize_row r)"
    using here by (auto simp: map_of_stored_key)
  have passed: "map_of COLUMN_MAPPING k = None \<longrightarrow> k \<in> dom (normalize_row r)"
    using here by (auto simp: map_of_stored_key)
  have val: "normalize_row r (stored_key k) = Some v"
    if later: "\<forall>kv \<in> set r2. stored_key (fst kv) \<noteq> stored_key k"
      and earlier: "map_of COLUMN_MAPPING k = Some ''Notes/Comments'' \<longrightarrow>
             (\<forall>kv \<in> set r1. stored_key (fst kv) \<noteq> ''Notes/Comments'') \<or> v = []"
  proof -
    have split: "normalize_row r (stored_key k) =
        standardize_field (standardize_row r1) (k, v) (stored_key k)"
      unfolding r normalize_row_eq using later by (rule standardize_row_split)
    show ?thesis
    proof (cases "map_of COLUMN_MAPPING k = Some ''Notes/Comments'' \<and> v \<noteq> []")
      case True
      then have "\<forall>kv \<in> set r1. stored_key (fst kv) \<noteq> stored_key k"
        using earlier by (simp add: map_of_stored_key)
      then have "standardize_row r1 (stored_key k) = None"
        by (rule standardize_row_absent)
      then show ?thesis
        using split by (simp add: standardize_field_fresh)
    next
      case False
      then have "stored_key k \<noteq> ''Notes/Comments'' \<or> map_of COLUMN_MAPPING k = None \<or> v = []"
        by (cases "map_of COLUMN_MAPPING k") (auto simp: map_of_stored_key)
      then show ?thesis
        using split by (simp add: standardize_field_overwrite)
    qed
  qed
  have fallback: "\<forall>task c. task ''Category'' = None \<and> task ''Task Name'' = Some c \<longrightarrow>
            ensure_category task ''Category'' = Some c"
    by (simp add: ensure_category_def)
  have unchanged: "\<forall>task. task ''Category'' \<noteq> None \<or> task ''Task Name'' = None \<longrightarrow>
            ensure_category task = task"
    by (auto simp: ensure_category_def)
  from renamed passed keys val fallback unchanged show ?thesis by blast
qed

theorem normalizer_renames_witness:
  "''Category'' \<in> dom (normalize_row [(''Task Name'', ''Setup DB''), (''Owner'', ''Ann'')]) \<and>
   ''Owner'' \<in> dom (normalize_row [(''Task Name'', ''Setup DB''), (''Owner'', ''Ann'')]) \<and>
   normalize_row [(''Task Name'', ''Setup DB''), (''Owner'', ''Ann'')] ''Category''
     = Some ''Setup DB'' \<and>
   normalize_row [(''Task Name'', ''Setup DB''), (''Owner'', ''Ann'')] ''Owner'' = Some ''Ann'' \<and>
   ensure_category [''Task Name'' \<mapsto> ''Setup DB''] ''Category'' = Some ''Setup DB'' \<and>
   ensure_category [''Category'' \<mapsto> ''Setup DB''] = [''Category'' \<mapsto> ''Setup DB'']"
  using normalizer_renames [of _ "[]" "''Task Name''" "''Setup DB''" "[(''Owner'', ''Ann'')]"]
    normalizer_renames [of _ "[(''Task Name'', ''Setup DB'')]" "''Owner''" "''Ann''" "[]"]
  by (simp add: stored_key_def COLUMN_MAPPING_def)

section \<open>Properties of the date coercion\<close>

lemma upt_0_10: "[0..<10] = [0, 1, 2, 3, 4, 5, 6, 7, 8, 9::nat]"
  by code_simp

lemma upt_1_13: "[1..<13] = [1, 2, 3, 4, 5, 6, 7, 8, 9, 10, 11, 12::nat]"
  by code_simp

lemma upt_1_32:
  "[1..<32] = [1, 2, 3, 4, 5, 6, 7, 8, 9, 10, 11, 12, 13, 14, 15, 16, 17, 18, 19, 20,
     21, 22, 23, 24, 25, 26, 27, 28, 29, 30, 31::nat]"
  by code_simp

lemma ascii_digit_nth:
  assumes "k < 10"
  shows "ascii_digit (''0123456789'' ! k) = Some k"
proof -
  have "k \<in> set [0..<10]" using assms by simp
  then have "k \<in> set [0, 1, 2, 3, 4, 5, 6, 7, 8, 9::nat]" by (simp only: upt_0_10)
  then have "k = 0 \<or> k = 1 \<or> k = 2 \<or> k = 3 \<or> k = 4 \<or> k = 5 \<or> k = 6 \<or> k = 7 \<or> k = 8 \<or> k = 9"
    by simp
  then show ?thesis
    by (elim disjE) (simp_all add: ascii_digit_def)
qed

lemma ascii_digit_digit_char: "ascii_digit (digit_char n) = Some (n mod 10)"
  unfolding digit_char_def by (rule ascii_digit_nth) simp

lemma digit_char_not_dash: "digit_char n \<noteq> CHR ''-''"
proof
  assume "digit_char n = CHR ''-''"
  then have "ascii_digit (CHR ''-'') = Some (n mod 10)"
    using ascii_digit_digit_char [of n] by simp
  then show False by (simp add: ascii_digit_def)
qed

lemma dash_notin_pad2: "CHR ''-'' \<notin> set (pad2 n)"
  using digit_char_not_dash [of n] digit_char_not_dash [of "n div 10"]
  by (auto simp: pad2_def)

lemma dash_notin_pad4: "CHR ''-'' \<notin> set (pad4 n)"
  by (simp add: pad4_def dash_notin_pad2)

text \<open>On the digits of ASCII, \<^verbatim>\<open>\d\<close> reads what the character classes read.\<close>

lemma decimal_ascii:
  "decimal (CHR ''0'' # rest) = [(0, rest)]"
  "decimal (CHR ''1'' # rest) = [(1, rest)]"
  "decimal (CHR ''2'' # rest) = [(2, rest)]"
  "decimal (CHR ''3'' # rest) = [(3, rest)]"
  "decimal (CHR ''4'' # rest) = [(4, rest)]"
  "decimal (CHR ''5'' # rest) = [(5, rest)]"
  "decimal (CHR ''6'' # rest) = [(6, rest)]"
  "decimal (CHR ''7'' # rest) = [(7, rest)]"
  "decimal (CHR ''8'' # rest) = [(8, rest)]"
  "decimal (CHR ''9'' # rest) = [(9, rest)]"
  by (simp_all add: decimal_def code_point_def decimal_value_def decimal_zeros_def)

lemma decimal_nth:
  assumes "k < 10"
  shows "decimal (''0123456789'' ! k # rest) = [(k, rest)]"
proof -
  have "k \<in> set [0..<10]" using assms by simp
  then have "k \<in> set [0, 1, 2, 3, 4, 5, 6, 7, 8, 9::nat]" by (simp only: upt_0_10)
  then have "k = 0 \<or> k = 1 \<or> k = 2 \<or> k = 3 \<or> k = 4 \<or> k = 5 \<or> k = 6 \<or> k = 7 \<or> k = 8 \<or> k = 9"
    by simp
  then show ?thesis
    by (elim disjE) (simp_all add: decimal_ascii)
qed

lemma any_digit: "decimal (digit_char n # rest) = [(n mod 10, rest)]"
  unfolding digit_char_def by (rule decimal_nth) simp

lemma two_digits_pad2: "two_digits decimal decimal (pad2 n @ rest) = [(n mod 100, rest)]"
proof -
  have "n mod (10 * 10) = 10 * (n div 10 mod 10) + n mod 10"
    by (rule mod_mult2_eq)
  then have "10 * (n div 10 mod 10) + n mod 10 = n mod 100" by simp
  then show ?thesis by (simp add: two_digits_def pad2_def any_digit)
qed

lemma year_re_pad4:
  assumes "y \<le> 9999"
  shows "year_re (pad4 y @ rest) = [(y, rest)]"
proof -
  have "y mod (100 * 100) = 100 * (y div 100 mod 100) + y mod 100"
    by (rule mod_mult2_eq)
  moreover have "y mod (100 * 100) = y" using assms by simp
  ultimately have "100 * (y div 100 mod 100) + y mod 100 = y" by simp
  then show ?thesis by (simp add: year_re_def pad4_def two_digits_pad2)
qed
text \<open>
  What follows the month in the pattern is the literal \<^verbatim>\<open>/\<close>: of the ways to match a
  month at the start of a zero-padded month followed by \<^verbatim>\<open>/\<close>, only the one that reads
  both digits goes on. The same holds for the day.
\<close>

lemma month_then_slash:
  assumes "1 \<le> m" and "m \<le> 12"
  shows "concat (map (\<lambda>(m', r1). concat (map (g m') (literal CHR ''/'' r1)))
           (month_re (pad2 m @ CHR ''/'' # rest))) = g m rest"
proof -
  have "m \<in> set [1..<13]" using assms by simp
  then have "m \<in> set [1, 2, 3, 4, 5, 6, 7, 8, 9, 10, 11, 12::nat]" by (simp only: upt_1_13)
  then have "m = 1 \<or> m = 2 \<or> m = 3 \<or> m = 4 \<or> m = 5 \<or> m = 6 \<or> m = 7 \<or> m = 8 \<or> m = 9 \<or>
        m = 10 \<or> m = 11 \<or> m = 12"
    by simp
  then show ?thesis
    by (elim disjE)
      (simp_all add: month_re_def two_digits_def digit_in_def ascii_digit_def literal_def
        pad2_def digit_char_def)
qed

lemma day_then_slash:
  assumes "1 \<le> d" and "d \<le> 31"
  shows "concat (map (\<lambda>(d', r3). concat (map (g d') (literal CHR ''/'' r3)))
           (day_re (pad2 d @ CHR ''/'' # rest))) = g d rest"
proof -
  have "d \<in> set [1..<32]" using assms by simp
  then have "d \<in> set [1, 2, 3, 4, 5, 6, 7, 8, 9, 10, 11, 12, 13, 14, 15, 16, 17, 18, 19, 20,
     21, 22, 23, 24, 25, 26, 27, 28, 29, 30, 31::nat]"
    by (simp only: upt_1_32)
  then have "d = 1 \<or> d = 2 \<or> d = 3 \<or> d = 4 \<or> d = 5 \<or> d = 6 \<or> d = 7 \<or> d = 8 \<or> d = 9 \<or>
        d = 10 \<or> d = 11 \<or> d = 12 \<or> d = 13 \<or> d = 14 \<or> d = 15 \<or> d = 16 \<or> d = 17 \<or>
        d = 18 \<or> d = 19 \<or> d = 20 \<or> d = 21 \<or> d = 22 \<or> d = 23 \<or> d = 24 \<or> d = 25 \<or>
        d = 26 \<or> d = 27 \<or> d = 28 \<or> d = 29 \<or> d = 30 \<or> d = 31"
    by simp
  then show ?thesis
    by (elim disjE)
      (simp_all add: day_re_def two_digits_def digit_in_def ascii_digit_def literal_def
        pad2_def digit_char_def decimal_ascii)
qed
lemma days_in_month_le: "days_in_month y m \<le> 31"
  by (simp add: days_in_month_def)

lemma date_re_padded:
  assumes "1 \<le> m" and "m \<le> 12" and "1 \<le> d" and "d \<le> 31" and "y \<le> 9999"
  shows "date_re (pad2 m @ ''/'' @ pad2 d @ ''/'' @ pad4 y) = [((y, m, d), [])]"
proof -
  have year: "year_re (pad4 y) = [(y, [])]"
    using year_re_pad4 [OF assms(5), of "[]"] by simp
  have "date_re (pad2 m @ CHR ''/'' # pad2 d @ CHR ''/'' # pad4 y) =
        concat (map (\<lambda>(d', r3). concat (map (\<lambda>r4. map (\<lambda>(y', r5). ((y', m, d'), r5)) (year_re r4))
                 (literal CHR ''/'' r3)))
          (day_re (pad2 d @ CHR ''/'' # pad4 y)))"
    unfolding date_re_def
    using month_then_slash [OF assms(1,2), of
        "\<lambda>m' r2. concat (map (\<lambda>(d', r3). concat (map (\<lambda>r4.
            map (\<lambda>(y', r5). ((y', m', d'), r5)) (year_re r4)) (literal CHR ''/'' r3)))
          (day_re r2))" "pad2 d @ CHR ''/'' # pad4 y"]
    by simp
  also have "\<dots> = map (\<lambda>(y', r5). ((y', m, d), r5)) (year_re (pad4 y))"
    using day_then_slash [OF assms(3,4), of
        "\<lambda>d' r4. map (\<lambda>(y', r5). ((y', m, d'), r5)) (year_re r4)" "pad4 y"]
    by simp
  finally show ?thesis by (simp add: year)
qed

lemma strptime_padded:
  assumes "1 \<le> y" and "y \<le> 9999" and "1 \<le> m" and "m \<le> 12"
    and "1 \<le> d" and "d \<le> days_in_month y m"
  shows "strptime (pad2 m @ ''/'' @ pad2 d @ ''/'' @ pad4 y) = Inr (y, m, d)"
proof -
  have "d \<le> 31" using assms(6) days_in_month_le [of y m] by linarith
  then have "date_re (pad2 m @ ''/'' @ pad2 d @ ''/'' @ pad4 y) = [((y, m, d), [])]"
    using assms by (intro date_re_padded)
  then show ?thesis
    using assms by (simp add: strptime_def)
qed

text \<open>From the year 1000 on the year is written with four digits.\<close>

lemma unpadded_four_digits:
  assumes "1000 \<le> y" and "y \<le> 9999"
  shows "unpadded y = pad4 y"
proof -
  have tens: "y div 10 div 10 = y div 100" and hundreds: "y div 100 div 10 = y div 1000"
    by (simp_all add: div_mult2_eq [symmetric])
  have sizes: "\<not> y < 10" "\<not> y div 10 < 10" "\<not> y div 100 < 10" "y div 1000 < 10"
    using assms by simp_all
  have "unpadded y = unpadded (y div 10) @ [digit_char y]"
    using sizes(1) by (simp add: unpadded.simps [of y])
  also have "unpadded (y div 10) = unpadded (y div 100) @ [digit_char (y div 10)]"
    using sizes(2) by (simp add: unpadded.simps [of "y div 10"] tens)
  also have "unpadded (y div 100) = unpadded (y div 1000) @ [digit_char (y div 100)]"
    using sizes(3) by (simp add: unpadded.simps [of "y div 100"] hundreds)
  also have "unpadded (y div 1000) = [digit_char (y div 1000)]"
    using sizes(4) by (simp add: unpadded.simps [of "y div 1000"])
  finally show ?thesis
    by (simp add: pad4_def pad2_def hundreds)
qed

lemma due_date_prop_lookup:
  "map_of (due_date_prop v) ''Due Date'' =
    (if v = [] then None
     else if CHR ''-'' \<in> set v then Some (Date v)
     else (case strptime v of Inl e \<Rightarrow> None | Inr dt \<Rightarrow> Some (Date (strftime dt))))"
  by (simp add: due_date_prop_def split: sum.splits)

text \<open>
  C1. A non-empty due date without \<^verbatim>\<open>-\<close> is parsed as month/day/year and written as
  year-month-day, one with \<^verbatim>\<open>-\<close> passes through unchanged, and one that cannot be parsed
  leaves the property out. As the claim states it, it fails at its own example:
  \<^verbatim>\<open>not-a-date\<close> contains \<^verbatim>\<open>-\<close>, so it is never parsed and is sent as the date.
\<close>

theorem due_date_not_a_date_counterexample:
  "map_of (convert_to_notion_properties [''Category'' \<mapsto> ''A'', ''Due Date'' \<mapsto> ''not-a-date''])
     ''Due Date'' = Some (Date ''not-a-date'') \<and>
   map_of (convert_to_notion_properties [''Category'' \<mapsto> ''A'', ''Due Date'' \<mapsto> ''not-a-date''])
     ''Due Date'' \<noteq> None"
  by (simp add: due_date_of_properties due_date_prop_lookup get_default_def)

text \<open>
  C1, amended. For a task whose due date \<open>v\<close> is non-empty: when \<open>v\<close> contains \<^verbatim>\<open>-\<close> the
  property \<^verbatim>\<open>Due Date\<close> is \<open>v\<close> itself, whatever \<open>v\<close> is; when it does not, the property is
  the parsed date written as year-month-day if \<open>v\<close> parses as month/day/year, and is absent
  if parsing fails. In particular every calendar date of the years 1 to 9999 written
  \<^verbatim>\<open>MM/DD/YYYY\<close> becomes the year, the month in two digits and the day in two digits,
  joined by \<^verbatim>\<open>-\<close>; the year is written without leading zeros, which from the year 1000 on
  is \<^verbatim>\<open>YYYY-MM-DD\<close>.
\<close>

theorem due_date_coercion:
  assumes "task_data ''Due Date'' = Some v" and "v \<noteq> []"
  shows "(CHR ''-'' \<in> set v \<longrightarrow>
            map_of (convert_to_notion_properties task_data) ''Due Date'' = Some (Date v)) \<and>
         (CHR ''-'' \<notin> set v \<longrightarrow>
            (\<forall>dt. strptime v = Inr dt \<longrightarrow>
               map_of (convert_to_notion_properties task_data) ''Due Date''
                 = Some (Date (strftime dt))) \<and>
            (\<forall>e. strptime v = Inl e \<longrightarrow>
               map_of (convert_to_notion_properties task_data) ''Due Date'' = None)) \<and>
         (\<forall>y m d. 1 \<le> y \<and> y \<le> 9999 \<and> 1 \<le> m \<and> m \<le> 12 \<and> 1 \<le> d \<and> d \<le> days_in_month y m \<and>
            v = pad2 m @ ''/'' @ pad2 d @ ''/'' @ pad4 y \<longrightarrow>
            map_of (convert_to_notion_properties task_data) ''Due Date''
              = Some (Date (unpadded y @ ''-'' @ pad2 m @ ''-'' @ pad2 d)) \<and>
            (1000 \<le> y \<longrightarrow>
               map_of (convert_to_notion_properties task_data) ''Due Date''
                 = Some (Date (pad4 y @ ''-'' @ pad2 m @ ''-'' @ pad2 d))))"
proof -
  have lookup: "map_of (convert_to_notion_properties task_data) ''Due Date'' =
      (if CHR ''-'' \<in> set v then Some (Date v)
       else (case strptime v of Inl e \<Rightarrow> None | Inr dt \<Rightarrow> Some (Date (strftime dt))))"
    using assms by (simp add: due_date_of_properties due_date_prop_lookup get_default_def)
  have padded: "map_of (convert_to_notion_properties task_data) ''Due Date''
              = Some (Date (unpadded y @ ''-'' @ pad2 m @ ''-'' @ pad2 d))"
    if "1 \<le> y" "y \<le> 9999" "1 \<le> m" "m \<le> 12" "1 \<le> d" "d \<le> days_in_month y m"
      and v: "v = pad2 m @ ''/'' @ pad2 d @ ''/'' @ pad4 y" for y m d
  proof -
    have "CHR ''-'' \<notin> set v"
      unfolding v using dash_notin_pad2 [of m] dash_notin_pad2 [of d] dash_notin_pad4 [of y]
      by simp
    moreover have "strptime v = Inr (y, m, d)"
      unfolding v using that(1-6) by (rule strptime_padded)
    ultimately show ?thesis
      by (simp add: lookup strftime_def)
  qed
  have four: "map_of (convert_to_notion_properties task_data) ''Due Date''
              = Some (Date (pad4 y @ ''-'' @ pad2 m @ ''-'' @ pad2 d))"
    if "1000 \<le> y" "y \<le> 9999" "1 \<le> m" "m \<le> 12" "1 \<le> d" "d \<le> days_in_month y m"
      and v: "v = pad2 m @ ''/'' @ pad2 d @ ''/'' @ pad4 y" for y m d
  proof -
    from that(1) have "1 \<le> y" by simp
    from padded [OF this that(2-6) v] unpadded_four_digits [OF that(1,2)]
    show ?thesis by simp
  qed
  have first: "CHR ''-'' \<in> set v \<longrightarrow>
      map_of (convert_to_notion_properties task_data) ''Due Date'' = Some (Date v)"
    by (simp add: lookup)
  have second: "CHR ''-'' \<notin> set v \<longrightarrow>
      (\<forall>dt. strptime v = Inr dt \<longrightarrow>
         map_of (convert_to_notion_properties task_data) ''Due Date''
           = Some (Date (strftime dt))) \<and>
      (\<forall>e. strptime v = Inl e \<longrightarrow>
         map_of (convert_to_notion_properties task_data) ''Due Date'' = None)"
    by (simp add: lookup)
  from first second padded four show ?thesis by blast
qed

lemma strftime_examples:
  "strftime (2025, 3, 15) = ''2025-03-15''"
  "strftime (999, 3, 15) = ''999-03-15''"
  by code_simp+

text \<open>
  The same date with the year in Arabic-Indic digits, U+0662 U+0660 U+0662 U+0665, each
  encoded in two bytes: the pattern's \<^verbatim>\<open>\d\<close> matches them and the date is read.
\<close>

lemma decimal_arabic_indic:
  "decimal (CHR 0xD9 # CHR 0xA0 # rest) = [(0, rest)]"
  "decimal (CHR 0xD9 # CHR 0xA2 # rest) = [(2, rest)]"
  "decimal (CHR 0xD9 # CHR 0xA5 # rest) = [(5, rest)]"
  by (simp_all add: decimal_def code_point_def continuation_def decimal_value_def
      decimal_zeros_def)

lemma strptime_arabic_indic:
  "strptime (''03/15/'' @ [CHR 0xD9, CHR 0xA2, CHR 0xD9, CHR 0xA0, CHR 0xD9, CHR 0xA2,
     CHR 0xD9, CHR 0xA5]) = Inr (2025, 3, 15)"
  by (simp add: strptime_def date_re_def month_re_def day_re_def year_re_def two_digits_def
      digit_in_def ascii_digit_def literal_def decimal_ascii decimal_arabic_indic
      days_in_month_def is_leap_def)

theorem due_date_coercion_witness:
  "map_of (convert_to_notion_properties [''Category'' \<mapsto> ''A'', ''Due Date'' \<mapsto> ''03/15/2025''])
     ''Due Date'' = Some (Date ''2025-03-15'') \<and>
   map_of (convert_to_notion_properties [''Category'' \<mapsto> ''A'', ''Due Date'' \<mapsto> ''03/15/0999''])
     ''Due Date'' = Some (Date ''999-03-15'') \<and>
   map_of (convert_to_notion_properties [''Category'' \<mapsto> ''A'', ''Due Date'' \<mapsto>
       ''03/15/'' @ [CHR 0xD9, CHR 0xA2, CHR 0xD9, CHR 0xA0, CHR 0xD9, CHR 0xA2, CHR 0xD9, CHR 0xA5]])
     ''Due Date'' = Some (Date ''2025-03-15'') \<and>
   map_of (convert_to_notion_properties [''Category'' \<mapsto> ''A'', ''Due Date'' \<mapsto> ''2025-03-15''])
     ''Due Date'' = Some (Date ''2025-03-15'') \<and>
   map_of (convert_to_notion_properties [''Category'' \<mapsto> ''A'', ''Due Date'' \<mapsto> ''not a date''])
     ''Due Date'' = None"
proof -
  let ?arabic = "''03/15/'' @ [CHR 0xD9, CHR 0xA2, CHR 0xD9, CHR 0xA0, CHR 0xD9, CHR 0xA2,
     CHR 0xD9, CHR 0xA5]"
  have slashes: "[''Category'' \<mapsto> ''A'', ''Due Date'' \<mapsto> ''03/15/2025''] ''Due Date''
      = Some ''03/15/2025''"
    by simp
  have early: "[''Category'' \<mapsto> ''A'', ''Due Date'' \<mapsto> ''03/15/0999''] ''Due Date''
      = Some ''03/15/0999''"
    by simp
  have script: "[''Category'' \<mapsto> ''A'', ''Due Date'' \<mapsto> ?arabic] ''Due Date'' = Some ?arabic"
    by simp
  have dashes: "[''Category'' \<mapsto> ''A'', ''Due Date'' \<mapsto> ''2025-03-15''] ''Due Date''
      = Some ''2025-03-15''"
    by simp
  have words: "[''Category'' \<mapsto> ''A'', ''Due Date'' \<mapsto> ''not a date''] ''Due Date''
      = Some ''not a date''"
    by simp
  have parse_fails: "strptime ''not a date'' = Inl ValueError"
    by (simp add: strptime_def date_re_def month_re_def two_digits_def digit_in_def
        ascii_digit_def)
  have "map_of (convert_to_notion_properties
          [''Category'' \<mapsto> ''A'', ''Due Date'' \<mapsto> ''03/15/2025'']) ''Due Date''
        = Some (Date (pad4 2025 @ ''-'' @ pad2 3 @ ''-'' @ pad2 15))"
    by (rule due_date_coercion
          [of "[''Category'' \<mapsto> ''A'', ''Due Date'' \<mapsto> ''03/15/2025'']" "''03/15/2025''",
            OF slashes, THEN conjunct2, THEN conjunct2, rule_format, THEN conjunct2, rule_format])
      (simp_all add: pad4_def pad2_def digit_char_def days_in_month_def is_leap_def)
  then have reformatted: "map_of (convert_to_notion_properties
          [''Category'' \<mapsto> ''A'', ''Due Date'' \<mapsto> ''03/15/2025'']) ''Due Date''
        = Some (Date ''2025-03-15'')"
    by (simp add: pad4_def pad2_def digit_char_def)
  have "map_of (convert_to_notion_properties
          [''Category'' \<mapsto> ''A'', ''Due Date'' \<mapsto> ''03/15/0999'']) ''Due Date''
        = Some (Date (unpadded 999 @ ''-'' @ pad2 3 @ ''-'' @ pad2 15))"
    by (rule due_date_coercion
          [of "[''Category'' \<mapsto> ''A'', ''Due Date'' \<mapsto> ''03/15/0999'']" "''03/15/0999''",
            OF early, THEN conjunct2, THEN conjunct2, rule_format, THEN conjunct1])
      (simp_all add: pad4_def pad2_def digit_char_def days_in_month_def is_leap_def)
  then have unpadded_year: "map_of (convert_to_notion_properties
          [''Category'' \<mapsto> ''A'', ''Due Date'' \<mapsto> ''03/15/0999'']) ''Due Date''
        = Some (Date ''999-03-15'')"
    using strftime_examples(2) by (simp add: strftime_def)
  have "map_of (convert_to_notion_properties
          [''Category'' \<mapsto> ''A'', ''Due Date'' \<mapsto> ?arabic]) ''Due Date''
        = Some (Date (strftime (2025, 3, 15)))"
    by (rule due_date_coercion
          [of "[''Category'' \<mapsto> ''A'', ''Due Date'' \<mapsto> ?arabic]" ?arabic,
            OF script, THEN conjunct2, THEN conjunct1, THEN mp, THEN conjunct1, rule_format])
      (use strptime_arabic_indic in simp_all)
  then have other_script: "map_of (convert_to_notion_properties
          [''Category'' \<mapsto> ''A'', ''Due Date'' \<mapsto> ?arabic]) ''Due Date''
        = Some (Date ''2025-03-15'')"
    by (simp only: strftime_examples(1))
  have unchanged: "map_of (convert_to_notion_properties
          [''Category'' \<mapsto> ''A'', ''Due Date'' \<mapsto> ''2025-03-15'']) ''Due Date''
        = Some (Date ''2025-03-15'')"
    by (rule due_date_coercion
          [of "[''Category'' \<mapsto> ''A'', ''Due Date'' \<mapsto> ''2025-03-15'']" "''2025-03-15''",
            OF dashes, THEN conjunct1, rule_format]) simp_all
  have "(\<forall>e. strptime ''not a date'' = Inl e \<longrightarrow>
          map_of (convert_to_notion_properties
            [''Category'' \<mapsto> ''A'', ''Due Date'' \<mapsto> ''not a date'']) ''Due Date'' = None)"
    by (rule due_date_coercion
          [of "[''Category'' \<mapsto> ''A'', ''Due Date'' \<mapsto> ''not a date'']" "''not a date''",
            OF words, THEN conjunct2, THEN conjunct1, THEN mp,
          THEN conjunct2]) simp_all
  then have omitted: "map_of (convert_to_notion_properties
          [''Category'' \<mapsto> ''A'', ''Due Date'' \<mapsto> ''not a date'']) ''Due Date'' = None"
    using parse_fails by blast
  from reformatted unpadded_year other_script unchanged omitted show ?thesis by blast
qed

section \<open>Properties of the reading loop\<close>

lemma read_row_skip: "\<not> has_category (normalize_row r) \<Longrightarrow> read_row st r = st"
  by (auto simp: read_row_def has_category_def truthy_def Let_def split: option.splits)

lemma read_row_keep:
  assumes "has_category (normalize_row r)"
  shows "read_row st r =
    st\<lparr> all_tasks := all_tasks st @ [normalize_row r],
        unique_categories := insert (category_of (normalize_row r)) (unique_categories st),
        printed := printed st @
          (if category_of (normalize_row r) \<in> unique_categories st
           then [Duplicate_warning (category_of (normalize_row r))] else []) \<rparr>"
  using assms
  by (auto simp: read_row_def has_category_def truthy_def category_of_def get_default_def Let_def
      split: option.splits)

lemma all_tasks_read_rows:
  "all_tasks (foldl read_row st rs) = all_tasks st @ kept_tasks rs"
proof (induction rs arbitrary: st)
  case Nil
  then show ?case by (simp add: kept_tasks_def)
next
  case (Cons r rs)
  show ?case
  proof (cases "has_category (normalize_row r)")
    case True
    then show ?thesis by (simp add: Cons.IH read_row_keep kept_tasks_def)
  next
    case False
    then show ?thesis using Cons.IH [of st] by (simp add: read_row_skip kept_tasks_def)
  qed
qed

lemma unique_categories_read_rows:
  "unique_categories (foldl read_row st rs) =
     unique_categories st \<union> set (map category_of (kept_tasks rs))"
proof (induction rs arbitrary: st)
  case Nil
  then show ?case by (simp add: kept_tasks_def)
next
  case (Cons r rs)
  show ?case
  proof (cases "has_category (normalize_row r)")
    case True
    then show ?thesis by (simp add: Cons.IH read_row_keep kept_tasks_def)
  next
    case False
    then show ?thesis using Cons.IH [of st] by (simp add: read_row_skip kept_tasks_def)
  qed
qed

lemma warned_append: "warned (ms @ ms') c = warned ms c + warned ms' c"
  by (induction ms) (simp_all add: warned_def)

lemma warned_read_rows:
  "warned (printed (foldl read_row st rs)) c =
     warned (printed st) c +
     (count_list (map category_of (kept_tasks rs)) c - (if c \<in> unique_categories st then 0 else 1))"
proof (induction rs arbitrary: st)
  case Nil
  then show ?case by (simp add: kept_tasks_def)
next
  case (Cons r rs)
  show ?case
  proof (cases "has_category (normalize_row r)")
    case True
    then show ?thesis
      by (simp add: Cons.IH read_row_keep kept_tasks_def warned_append) (simp add: warned_def)
  next
    case False
    then show ?thesis using Cons.IH [of st] by (simp add: read_row_skip kept_tasks_def)
  qed
qed

lemma kept_tasks_append: "kept_tasks (rs @ rs') = kept_tasks rs @ kept_tasks rs'"
  by (simp add: kept_tasks_def)

lemma read_file_fields:
  "all_tasks (read_file st f) = all_tasks st @ kept_tasks (rows f)"
  "unique_categories (read_file st f) =
     unique_categories st \<union> set (map category_of (kept_tasks (rows f)))"
  "warned (printed (read_file st f)) c =
     warned (printed st) c +
     (count_list (map category_of (kept_tasks (rows f))) c -
        (if c \<in> unique_categories st then 0 else 1))"
  by (simp_all add: read_file_def Let_def all_tasks_read_rows unique_categories_read_rows
      warned_read_rows warned_append)
    (simp add: warned_def)

lemma count_minus_first:
  "count_list (xs @ ys) c - (if c \<in> S then 0 else 1) =
     (count_list xs c - (if c \<in> S then 0 else 1)) +
     (count_list ys c - (if c \<in> S \<union> set xs then 0 else (1::nat)))"
proof (cases "c \<in> set xs")
  case True
  then have "0 < count_list xs c" using count_list_0_iff [of xs c] by auto
  then show ?thesis using True by simp
next
  case False
  then have "count_list xs c = 0" using count_list_0_iff [of xs c] by auto
  then show ?thesis using False by simp
qed

lemma read_files_fields:
  "all_tasks (foldl read_file st files) = all_tasks st @ kept_tasks (all_rows files) \<and>
   unique_categories (foldl read_file st files) =
     unique_categories st \<union> set (map category_of (kept_tasks (all_rows files))) \<and>
   warned (printed (foldl read_file st files)) c =
     warned (printed st) c +
     (count_list (map category_of (kept_tasks (all_rows files))) c -
        (if c \<in> unique_categories st then 0 else 1))"
proof (induction files arbitrary: st)
  case Nil
  then show ?case by (simp add: all_rows_def kept_tasks_def)
next
  case (Cons f files)
  have rows_Cons: "all_rows (f # files) = rows f @ all_rows files"
    by (simp add: all_rows_def)
  note IH = Cons.IH [of "read_file st f"]
  have tasks: "all_tasks (foldl read_file (read_file st f) files) =
      all_tasks st @ kept_tasks (rows f @ all_rows files)"
    using IH by (simp add: read_file_fields kept_tasks_append)
  have seen: "unique_categories (foldl read_file (read_file st f) files) =
      unique_categories st \<union> set (map category_of (kept_tasks (rows f @ all_rows files)))"
    using IH by (simp add: read_file_fields kept_tasks_append Un_assoc)
  have "warned (printed (foldl read_file (read_file st f) files)) c =
      warned (printed (read_file st f)) c +
      (count_list (map category_of (kept_tasks (all_rows files))) c -
        (if c \<in> unique_categories (read_file st f) then 0 else 1))"
    using IH by blast
  also have "\<dots> = warned (printed st) c +
      ((count_list (map category_of (kept_tasks (rows f))) c -
         (if c \<in> unique_categories st then 0 else 1)) +
       (count_list (map category_of (kept_tasks (all_rows files))) c -
         (if c \<in> unique_categories st \<union> set (map category_of (kept_tasks (rows f)))
          then 0 else 1)))"
    by (simp only: read_file_fields add.assoc)
  also have "\<dots> = warned (printed st) c +
      (count_list (map category_of (kept_tasks (rows f)) @
         map category_of (kept_tasks (all_rows files))) c -
       (if c \<in> unique_categories st then 0 else 1))"
    by (simp only: count_minus_first)
  finally have warnings: "warned (printed (foldl read_file (read_file st f) files)) c =
      warned (printed st) c +
      (count_list (map category_of (kept_tasks (rows f @ all_rows files))) c -
        (if c \<in> unique_categories st then 0 else 1))"
    by (simp add: kept_tasks_append)
  show ?case
    unfolding rows_Cons using tasks seen warnings by simp
qed

lemma all_tasks_read_files: "all_tasks (read_files files) = kept_tasks (all_rows files)"
  using read_files_fields [of _ files] by (simp add: read_files_def)

lemma warned_read_files:
  "warned (printed (read_files files)) c =
     count_list (map category_of (kept_tasks (all_rows files))) c - 1"
  using read_files_fields [of "\<lparr> all_tasks = [], unique_categories = {}, printed = [] \<rparr>" files c]
  by (simp add: read_files_def warned_def)

lemma read_files_drop_row:
  assumes "\<not> has_category (normalize_row r)"
  shows "read_files (fs1 @ [Csv_file (rs1 @ [r] @ rs2) e] @ fs2) =
         read_files (fs1 @ [Csv_file (rs1 @ rs2) e] @ fs2)"
  using assms by (simp add: read_files_def read_file_def read_row_skip)

section \<open>Properties of the sync driver\<close>

lemma sync_task_no_call:
  "planned_call mode existing task = None \<Longrightarrow> sync_task mode existing respond st task = st"
  by (simp add: sync_task_def)

lemma sync_task_failure:
  assumes "planned_call mode existing task = Some c" and "respond (remote st) c = (False, r')"
  shows "sync_task mode existing respond st task =
    st\<lparr> results := (results st)\<lparr> errors := errors (results st) + 1 \<rparr>,
        calls := calls st @ [c],
        remote := r',
        messages := messages st @ [Task_error (task ''Category'')] \<rparr>"
  using assms by (simp add: sync_task_def)

lemma sync_task_success:
  assumes "planned_call mode existing task = Some c" and "respond (remote st) c = (True, r')"
  shows "sync_task mode existing respond st task =
    st\<lparr> results := count_success c (results st),
        calls := calls st @ [c],
        remote := r',
        messages := messages st @ [success_message c (task ''Category'')] \<rparr>"
  using assms by (simp add: sync_task_def)

lemma calls_sync_task:
  "calls (sync_task mode existing respond st task) =
     calls st @ (case planned_call mode existing task of None \<Rightarrow> [] | Some c \<Rightarrow> [c])"
proof (cases "planned_call mode existing task")
  case None
  then show ?thesis by (simp add: sync_task_no_call)
next
  case (Some c)
  obtain ok r' where "respond (remote st) c = (ok, r')" by (cases "respond (remote st) c")
  then show ?thesis
    using Some by (cases ok) (simp_all add: sync_task_failure sync_task_success)
qed

lemma total_count_success: "total (count_success c t) = total t"
  by (cases c) (simp_all add: count_success_def)

lemma total_sync_task: "total (results (sync_task mode existing respond st task)) = total (results st)"
proof (cases "planned_call mode existing task")
  case None
  then show ?thesis by (simp add: sync_task_no_call)
next
  case (Some c)
  obtain ok r' where "respond (remote st) c = (ok, r')" by (cases "respond (remote st) c")
  then show ?thesis
    using Some
    by (cases ok) (simp_all add: sync_task_failure sync_task_success total_count_success)
qed

lemma calls_upload_tasks:
  "calls (upload_tasks mode existing respond st tasks) =
     calls st @ List.map_filter (planned_call mode existing) tasks"
  unfolding upload_tasks_def
proof (induction tasks arbitrary: st)
  case Nil
  then show ?case by (simp add: List.map_filter_simps)
next
  case (Cons t tasks)
  show ?case
    by (simp add: Cons.IH calls_sync_task List.map_filter_simps split: option.splits)
qed

lemma total_upload_tasks:
  "total (results (upload_tasks mode existing respond st tasks)) = total (results st)"
  unfolding upload_tasks_def
  by (induction tasks arbitrary: st) (simp_all add: total_sync_task)

lemma calls_process_csv_files:
  "calls (process_csv_files files mode existing respond r0) =
     List.map_filter (planned_call mode existing) (kept_tasks (all_rows files))"
  by (simp add: process_csv_files_def Let_def calls_upload_tasks all_tasks_read_files)

lemma total_process_csv_files:
  "total (results (process_csv_files files mode existing respond r0)) =
     length (kept_tasks (all_rows files))"
  by (simp add: process_csv_files_def Let_def total_upload_tasks all_tasks_read_files)

lemma map_filter_all:
  assumes "\<And>x y. f x = Some y \<Longrightarrow> P y"
  shows "\<forall>y \<in> set (List.map_filter f xs). P y"
  using assms by (auto simp: List.map_filter_def)

lemma planned_call_create:
  "planned_call ''create'' existing task = Some c \<Longrightarrow> is_create c"
  by (auto simp: planned_call_def split: option.splits if_splits)

lemma planned_call_update:
  "planned_call ''update'' existing task = Some c \<Longrightarrow> is_update c"
  by (auto simp: planned_call_def split: option.splits if_splits)

text \<open>
  C2. In mode \<^verbatim>\<open>create\<close> every call of a run is a create call, also when the category of a
  task is in the index; in mode \<^verbatim>\<open>update\<close> every call is an update call, also when the
  category is not in the index. A task whose category is in the index in mode \<^verbatim>\<open>create\<close>,
  or is not in it in mode \<^verbatim>\<open>update\<close>, leaves the whole state as it is: no call, no
  counter changed, nothing printed.
\<close>

theorem mode_restricts_calls:
  "(\<forall>c \<in> set (calls (process_csv_files files ''create'' existing respond r0)). is_create c) \<and>
   (\<forall>c \<in> set (calls (process_csv_files files ''update'' existing respond r0)). is_update c) \<and>
   (category_in (task ''Category'') existing \<noteq> None \<longrightarrow>
      sync_task ''create'' existing respond st task = st) \<and>
   (category_in (task ''Category'') existing = None \<longrightarrow>
      sync_task ''update'' existing respond st task = st)"
proof -
  have creates: "\<forall>c \<in> set (calls (process_csv_files files ''create'' existing respond r0)).
      is_create c"
    unfolding calls_process_csv_files by (rule map_filter_all) (rule planned_call_create)
  have updates: "\<forall>c \<in> set (calls (process_csv_files files ''update'' existing respond r0)).
      is_update c"
    unfolding calls_process_csv_files by (rule map_filter_all) (rule planned_call_update)
  have skip_existing: "sync_task ''create'' existing respond st task = st"
    if "category_in (task ''Category'') existing \<noteq> None"
    using that by (intro sync_task_no_call) (auto simp: planned_call_def)
  have skip_new: "sync_task ''update'' existing respond st task = st"
    if "category_in (task ''Category'') existing = None"
    using that by (intro sync_task_no_call) (auto simp: planned_call_def)
  from creates updates skip_existing skip_new show ?thesis by blast
qed

lemma normalize_single_task_name:
  "normalize_row [(''Task Name'', c)] = [''Category'' \<mapsto> c]"
  by (simp add: normalize_row_def ensure_category_def standardize_row_def standardize_field_def
      COLUMN_MAPPING_def)

theorem mode_restricts_calls_witness:
  "Create_task (convert_to_notion_properties [''Category'' \<mapsto> ''New Task''])
     \<in> set (calls (process_csv_files
          [Csv_file [[(''Task Name'', ''New Task'')], [(''Task Name'', ''Setup DB'')]] False]
          ''create'' [''Setup DB'' \<mapsto> ''page_1''] (\<lambda>r c. (True, r)) ())) \<and>
   is_create (Create_task (convert_to_notion_properties [''Category'' \<mapsto> ''New Task''])) \<and>
   Update_task ''page_1'' (convert_to_notion_properties [''Category'' \<mapsto> ''Setup DB''])
     \<in> set (calls (process_csv_files
          [Csv_file [[(''Task Name'', ''New Task'')], [(''Task Name'', ''Setup DB'')]] False]
          ''update'' [''Setup DB'' \<mapsto> ''page_1''] (\<lambda>r c. (True, r)) ())) \<and>
   is_update (Update_task ''page_1'' (convert_to_notion_properties [''Category'' \<mapsto> ''Setup DB''])) \<and>
   sync_task ''create'' [''Setup DB'' \<mapsto> ''page_1''] (\<lambda>r c. (True, r))
     \<lparr> results = \<lparr> total = 1, created = 0, updated = 0, errors = 0 \<rparr>,
       calls = [], remote = (), messages = [] \<rparr> [''Category'' \<mapsto> ''Setup DB'']
     = \<lparr> results = \<lparr> total = 1, created = 0, updated = 0, errors = 0 \<rparr>,
         calls = [], remote = (), messages = [] \<rparr> \<and>
   sync_task ''update'' [''Setup DB'' \<mapsto> ''page_1''] (\<lambda>r c. (True, r))
     \<lparr> results = \<lparr> total = 1, created = 0, updated = 0, errors = 0 \<rparr>,
       calls = [], remote = (), messages = [] \<rparr> [''Category'' \<mapsto> ''New Task'']
     = \<lparr> results = \<lparr> total = 1, created = 0, updated = 0, errors = 0 \<rparr>,
         calls = [], remote = (), messages = [] \<rparr>"
proof -
  let ?files = "[Csv_file [[(''Task Name'', ''New Task'')], [(''Task Name'', ''Setup DB'')]] False]"
  let ?index = "[''Setup DB'' \<mapsto> ''page_1'']"
  let ?ok = "\<lambda>(r::unit) (c::call). (True, r)"
  let ?st = "\<lparr> results = \<lparr> total = 1, created = 0, updated = 0, errors = 0 \<rparr>,
       calls = [], remote = (), messages = [] \<rparr>"
  let ?new = "Create_task (convert_to_notion_properties [''Category'' \<mapsto> ''New Task''])"
  let ?old = "Update_task ''page_1'' (convert_to_notion_properties [''Category'' \<mapsto> ''Setup DB''])"
  have made: "?new \<in> set (calls (process_csv_files ?files ''create'' ?index ?ok ()))"
    by (simp add: calls_process_csv_files all_rows_def kept_tasks_def has_category_def truthy_def
        normalize_single_task_name List.map_filter_simps planned_call_def category_in_def)
  have changed: "?old \<in> set (calls (process_csv_files ?files ''update'' ?index ?ok ()))"
    by (simp add: calls_process_csv_files all_rows_def kept_tasks_def has_category_def truthy_def
        normalize_single_task_name List.map_filter_simps planned_call_def category_in_def)
  note thm_old = mode_restricts_calls
    [of ?files ?index ?ok "()" "[''Category'' \<mapsto> ''Setup DB'']" ?st]
  note thm_new = mode_restricts_calls
    [of ?files ?index ?ok "()" "[''Category'' \<mapsto> ''New Task'']" ?st]
  have a: "is_create ?new"
    using thm_old [THEN conjunct1] made by blast
  have b: "is_update ?old"
    using thm_old [THEN conjunct2, THEN conjunct1] changed by blast
  have c: "sync_task ''create'' ?index ?ok ?st [''Category'' \<mapsto> ''Setup DB''] = ?st"
    by (rule thm_old [THEN conjunct2, THEN conjunct2, THEN conjunct1, THEN mp])
      (simp add: category_in_def)
  have d: "sync_task ''update'' ?index ?ok ?st [''Category'' \<mapsto> ''New Task''] = ?st"
    by (rule thm_new [THEN conjunct2, THEN conjunct2, THEN conjunct2, THEN mp])
      (simp add: category_in_def)
  from made a changed b c d show ?thesis by blast
qed

text \<open>
  C6. When the call made for a task fails, the failure is counted for that task alone:
  \<^verbatim>\<open>errors\<close> goes up by one, \<^verbatim>\<open>created\<close>, \<^verbatim>\<open>updated\<close> and \<^verbatim>\<open>total\<close> stay, and the loop goes on
  with the tasks that follow, for which every planned call is still made.
\<close>

theorem failed_call_counted_once:
  assumes "planned_call mode existing task = Some c"
    and "respond (remote st) c = (False, r')"
  shows "errors (results (sync_task mode existing respond st task)) = errors (results st) + 1 \<and>
         created (results (sync_task mode existing respond st task)) = created (results st) \<and>
         updated (results (sync_task mode existing respond st task)) = updated (results st) \<and>
         total (results (sync_task mode existing respond st task)) = total (results st) \<and>
         calls (sync_task mode existing respond st task) = calls st @ [c] \<and>
         upload_tasks mode existing respond st (task # rest) =
           upload_tasks mode existing respond (sync_task mode existing respond st task) rest \<and>
         calls (upload_tasks mode existing respond st (task # rest)) =
           calls st @ [c] @ List.map_filter (planned_call mode existing) rest"
  using assms
  by (simp add: sync_task_failure calls_upload_tasks List.map_filter_simps)
    (simp add: upload_tasks_def sync_task_failure)

theorem failed_call_counted_once_witness:
  "errors (results (sync_task ''both'' Map.empty (\<lambda>r c. (False, r))
     \<lparr> results = \<lparr> total = 2, created = 0, updated = 0, errors = 0 \<rparr>,
       calls = [], remote = (), messages = [] \<rparr> [''Category'' \<mapsto> ''New Task''])) = 1 \<and>
   created (results (sync_task ''both'' Map.empty (\<lambda>r c. (False, r))
     \<lparr> results = \<lparr> total = 2, created = 0, updated = 0, errors = 0 \<rparr>,
       calls = [], remote = (), messages = [] \<rparr> [''Category'' \<mapsto> ''New Task''])) = 0 \<and>
   calls (upload_tasks ''both'' Map.empty (\<lambda>r c. (False, r))
     \<lparr> results = \<lparr> total = 2, created = 0, updated = 0, errors = 0 \<rparr>,
       calls = [], remote = (), messages = [] \<rparr>
     [[''Category'' \<mapsto> ''New Task''], [''Category'' \<mapsto> ''Other'']]) =
     [Create_task (convert_to_notion_properties [''Category'' \<mapsto> ''New Task'']),
      Create_task (convert_to_notion_properties [''Category'' \<mapsto> ''Other''])]"
proof -
  let ?fail = "\<lambda>(r::unit) (c::call). (False, r)"
  let ?st = "\<lparr> results = \<lparr> total = 2, created = 0, updated = 0, errors = 0 \<rparr>,
       calls = [], remote = (), messages = [] \<rparr>"
  let ?task = "[''Category'' \<mapsto> ''New Task'']"
  let ?c = "Create_task (convert_to_notion_properties ?task)"
  have planned: "planned_call ''both'' Map.empty ?task = Some ?c"
    by (simp add: planned_call_def category_in_def)
  have failed: "?fail (remote ?st) ?c = (False, ())"
    by simp
  note facts = failed_call_counted_once
    [of "''both''" Map.empty ?task ?c ?fail ?st "()" "[[''Category'' \<mapsto> ''Other'']]",
      OF planned failed]
  have a: "errors (results (sync_task ''both'' Map.empty ?fail ?st ?task)) = 1"
    using facts [THEN conjunct1] by simp
  have b: "created (results (sync_task ''both'' Map.empty ?fail ?st ?task)) = 0"
    using facts [THEN conjunct2, THEN conjunct1] by simp
  have c: "calls (upload_tasks ''both'' Map.empty ?fail ?st [?task, [''Category'' \<mapsto> ''Other'']]) =
      [?c, Create_task (convert_to_notion_properties [''Category'' \<mapsto> ''Other''])]"
    using facts [THEN conjunct2, THEN conjunct2, THEN conjunct2, THEN conjunct2, THEN conjunct2,
        THEN conjunct2]
    by (simp add: planned_call_def category_in_def List.map_filter_simps)
  from a b c show ?thesis by blast
qed

lemma normalize_single_description:
  "normalize_row [(''Description'', d)] = [''Task Description'' \<mapsto> d]"
  by (simp add: normalize_row_def ensure_category_def standardize_row_def standardize_field_def
      COLUMN_MAPPING_def)

lemma planned_call_new:
  assumes "mode = ''create'' \<or> mode = ''both''"
    and "task ''Category'' = Some c" and "existing c = None"
  shows "planned_call mode existing task = Some (Create_task (convert_to_notion_properties task))"
  using assms by (auto simp: planned_call_def category_in_def)

text \<open>
  C5. A row whose \<^verbatim>\<open>Category\<close> is missing or empty after normalization leaves the state of
  the reading loop as it is (no task kept, nothing printed), and a run on files that hold
  such a row ends in the same state, with the same counters and the same calls, as the run
  on the files without the row. The \<^verbatim>\<open>total\<close> of a run is the number of rows that have a
  non-empty \<^verbatim>\<open>Category\<close> after normalization.
\<close>

theorem category_less_row_dropped:
  assumes "normalize_row r ''Category'' = None \<or> normalize_row r ''Category'' = Some []"
  shows "read_row st r = st \<and>
         process_csv_files (fs1 @ [Csv_file (rs1 @ [r] @ rs2) e] @ fs2) mode existing respond r0 =
           process_csv_files (fs1 @ [Csv_file (rs1 @ rs2) e] @ fs2) mode existing respond r0 \<and>
         total (results (process_csv_files files mode existing respond r0)) =
           length (filter has_category (map normalize_row (all_rows files)))"
proof -
  from assms have none: "\<not> has_category (normalize_row r)"
    by (auto simp: has_category_def truthy_def)
  have skipped: "read_row st r = st"
    using none by (rule read_row_skip)
  have same: "process_csv_files (fs1 @ [Csv_file (rs1 @ [r] @ rs2) e] @ fs2) mode existing respond r0 =
      process_csv_files (fs1 @ [Csv_file (rs1 @ rs2) e] @ fs2) mode existing respond r0"
    unfolding process_csv_files_def read_files_drop_row [OF none] ..
  have counted: "total (results (process_csv_files files mode existing respond r0)) =
      length (filter has_category (map normalize_row (all_rows files)))"
    by (simp add: total_process_csv_files kept_tasks_def)
  from skipped same counted show ?thesis by blast
qed

theorem category_less_row_dropped_witness:
  "read_row \<lparr> all_tasks = [], unique_categories = {}, printed = [] \<rparr> [(''Description'', ''no name'')]
     = \<lparr> all_tasks = [], unique_categories = {}, printed = [] \<rparr> \<and>
   process_csv_files
     [Csv_file [[(''Task Name'', ''A'')], [(''Description'', ''no name'')]] False]
     ''both'' Map.empty (\<lambda>r c. (True, r)) () =
   process_csv_files [Csv_file [[(''Task Name'', ''A'')]] False]
     ''both'' Map.empty (\<lambda>r c. (True, r)) () \<and>
   total (results (process_csv_files
     [Csv_file [[(''Task Name'', ''A'')], [(''Description'', ''no name'')]] False]
     ''both'' Map.empty (\<lambda>r c. (True, r)) ())) = 1"
proof -
  let ?r = "[(''Description'', ''no name'')]"
  let ?st = "\<lparr> all_tasks = [], unique_categories = {}, printed = [] \<rparr>"
  let ?ok = "\<lambda>(r::unit) (c::call). (True, r)"
  have missing: "normalize_row ?r ''Category'' = None \<or> normalize_row ?r ''Category'' = Some []"
    by (simp add: normalize_single_description)
  note facts = category_less_row_dropped
    [where r = ?r and st = ?st and ?fs1.0 = "[]" and ?rs1.0 = "[[(''Task Name'', ''A'')]]"
      and ?rs2.0 = "[]" and e = False and ?fs2.0 = "[]" and mode = "''both''"
      and existing = Map.empty and respond = ?ok and ?r0.0 = "()"
      and files = "[Csv_file [[(''Task Name'', ''A'')], [(''Description'', ''no name'')]] False]",
      OF missing]
  have a: "read_row ?st ?r = ?st"
    using facts [THEN conjunct1] .
  have b: "process_csv_files
     [Csv_file [[(''Task Name'', ''A'')], [(''Description'', ''no name'')]] False]
     ''both'' Map.empty ?ok () =
     process_csv_files [Csv_file [[(''Task Name'', ''A'')]] False] ''both'' Map.empty ?ok ()"
    using facts [THEN conjunct2, THEN conjunct1] by simp
  have c: "total (results (process_csv_files
     [Csv_file [[(''Task Name'', ''A'')], [(''Description'', ''no name'')]] False]
     ''both'' Map.empty ?ok ())) = 1"
    using facts [THEN conjunct2, THEN conjunct2]
    by (simp add: all_rows_def has_category_def truthy_def normalize_single_task_name
        normalize_single_description)
  from a b c show ?thesis by blast
qed

text \<open>
  C8. Rows with the same \<^verbatim>\<open>Category\<close> are all kept: the tasks of a run are the rows of all
  files that have a non-empty \<^verbatim>\<open>Category\<close>, in the order of the files and of the rows in
  them, with nothing removed. A row is reported as a duplicate exactly when its category is
  in the running set, so the warnings printed for a category are its occurrences but the
  first. The calls of a run are the planned calls of these tasks in that order, planned
  against the index as it was at the start, so that in mode \<^verbatim>\<open>create\<close> or \<^verbatim>\<open>both\<close> every
  occurrence of a category that is not in that index is a create call.
\<close>

theorem duplicates_not_removed:
  "all_tasks (read_files files) = filter has_category (map normalize_row (all_rows files)) \<and>
   (has_category (normalize_row r) \<longrightarrow>
      all_tasks (read_row st r) = all_tasks st @ [normalize_row r] \<and>
      unique_categories (read_row st r) =
        insert (category_of (normalize_row r)) (unique_categories st) \<and>
      printed (read_row st r) = printed st @
        (if category_of (normalize_row r) \<in> unique_categories st
         then [Duplicate_warning (category_of (normalize_row r))] else [])) \<and>
   warned (printed (read_files files)) c =
     count_list (map category_of (all_tasks (read_files files))) c - 1 \<and>
   calls (process_csv_files files mode existing respond r0) =
     List.map_filter (planned_call mode existing) (all_tasks (read_files files)) \<and>
   ((mode = ''create'' \<or> mode = ''both'') \<and> task ''Category'' = Some c \<and> existing c = None \<longrightarrow>
      planned_call mode existing task = Some (Create_task (convert_to_notion_properties task)))"
proof -
  have kept: "all_tasks (read_files files) =
      filter has_category (map normalize_row (all_rows files))"
    by (simp add: all_tasks_read_files kept_tasks_def)
  have step: "all_tasks (read_row st r) = all_tasks st @ [normalize_row r] \<and>
      unique_categories (read_row st r) =
        insert (category_of (normalize_row r)) (unique_categories st) \<and>
      printed (read_row st r) = printed st @
        (if category_of (normalize_row r) \<in> unique_categories st
         then [Duplicate_warning (category_of (normalize_row r))] else [])"
    if "has_category (normalize_row r)"
    by (simp add: read_row_keep [OF that])
  have warnings: "warned (printed (read_files files)) c =
      count_list (map category_of (all_tasks (read_files files))) c - 1"
    by (simp add: warned_read_files all_tasks_read_files)
  have made: "calls (process_csv_files files mode existing respond r0) =
      List.map_filter (planned_call mode existing) (all_tasks (read_files files))"
    by (simp add: calls_process_csv_files all_tasks_read_files)
  have new: "planned_call mode existing task = Some (Create_task (convert_to_notion_properties task))"
    if "(mode = ''create'' \<or> mode = ''both'') \<and> task ''Category'' = Some c \<and> existing c = None"
    using that by (intro planned_call_new [of mode task c existing]) simp_all
  from kept step warnings made new show ?thesis by blast
qed

theorem duplicates_not_removed_witness:
  "all_tasks (read_files
     [Csv_file [[(''Task Name'', ''A'')]] False, Csv_file [[(''Task Name'', ''A'')]] False]) =
     [[''Category'' \<mapsto> ''A''], [''Category'' \<mapsto> ''A'']] \<and>
   warned (printed (read_files
     [Csv_file [[(''Task Name'', ''A'')]] False, Csv_file [[(''Task Name'', ''A'')]] False])) ''A'' = 1 \<and>
   calls (process_csv_files
     [Csv_file [[(''Task Name'', ''A'')]] False, Csv_file [[(''Task Name'', ''A'')]] False]
     ''both'' Map.empty (\<lambda>r c. (True, r)) ()) =
     [Create_task (convert_to_notion_properties [''Category'' \<mapsto> ''A'']),
      Create_task (convert_to_notion_properties [''Category'' \<mapsto> ''A''])] \<and>
   printed (read_row
     \<lparr> all_tasks = [[''Category'' \<mapsto> ''A'']], unique_categories = {''A''}, printed = [] \<rparr>
     [(''Task Name'', ''A'')]) = [Duplicate_warning ''A'']"
proof -
  let ?files = "[Csv_file [[(''Task Name'', ''A'')]] False, Csv_file [[(''Task Name'', ''A'')]] False]"
  let ?task = "[''Category'' \<mapsto> ''A'']"
  let ?st = "\<lparr> all_tasks = [?task], unique_categories = {''A''}, printed = [] \<rparr>"
  let ?ok = "\<lambda>(r::unit) (c::call). (True, r)"
  note facts = duplicates_not_removed
    [where files = ?files and r = "[(''Task Name'', ''A'')]" and st = ?st and c = "''A''"
      and mode = "''both''" and existing = Map.empty and respond = ?ok and ?r0.0 = "()"
      and task = ?task]
  have kept: "all_tasks (read_files ?files) = [?task, ?task]"
    using facts [THEN conjunct1]
    by (simp add: all_rows_def has_category_def truthy_def normalize_single_task_name)
  have has: "has_category (normalize_row [(''Task Name'', ''A'')])"
    by (simp add: has_category_def truthy_def normalize_single_task_name)
  have warning: "printed (read_row ?st [(''Task Name'', ''A'')]) = [Duplicate_warning ''A'']"
    using facts [THEN conjunct2, THEN conjunct1, THEN mp, OF has, THEN conjunct2, THEN conjunct2]
    by (simp add: normalize_single_task_name category_of_def get_default_def)
  have warnings: "warned (printed (read_files ?files)) ''A'' = 1"
    using facts [THEN conjunct2, THEN conjunct2, THEN conjunct1]
    by (simp add: kept category_of_def get_default_def)
  have new: "planned_call ''both'' Map.empty ?task =
      Some (Create_task (convert_to_notion_properties ?task))"
    by (rule facts [THEN conjunct2, THEN conjunct2, THEN conjunct2, THEN conjunct2, THEN mp]) simp
  have made: "calls (process_csv_files ?files ''both'' Map.empty ?ok ()) =
      [Create_task (convert_to_notion_properties ?task),
       Create_task (convert_to_notion_properties ?task)]"
    using facts [THEN conjunct2, THEN conjunct2, THEN conjunct2, THEN conjunct1]
    by (simp add: kept new List.map_filter_simps)
  from kept warnings made warning show ?thesis by blast
qed

section \<open>Properties of the remote index builder\<close>

lemma register_page_entry:
  "register_page existing p =
    (case index_entry p of None \<Rightarrow> existing | Some (task_name, i) \<Rightarrow> existing(task_name \<mapsto> i))"
  by (simp add: register_page_def index_entry_def split: list.splits option.splits)

lemma foldl_register_page:
  "foldl register_page existing pages =
     existing ++ map_of (rev (List.map_filter index_entry pages))"
proof (induction pages arbitrary: existing)
  case Nil
  then show ?case by (simp add: List.map_filter_simps)
next
  case (Cons p pages)
  show ?case
  proof (cases "index_entry p")
    case None
    then show ?thesis
      using register_page_entry [of existing p] by (simp add: Cons.IH List.map_filter_simps)
  next
    case (Some entry)
    obtain task_name i where entry: "entry = (task_name, i)" by (cases entry)
    have "foldl register_page existing (p # pages) =
        foldl register_page (existing(task_name \<mapsto> i)) pages"
      using Some entry register_page_entry [of existing p] by simp
    also have "\<dots> = existing(task_name \<mapsto> i) ++ map_of (rev (List.map_filter index_entry pages))"
      by (rule Cons.IH)
    also have "\<dots> =
        existing ++ ([task_name \<mapsto> i] ++ map_of (rev (List.map_filter index_entry pages)))"
      by (simp add: map_add_assoc [symmetric])
    also have "\<dots> = existing ++ map_of (rev (List.map_filter index_entry (p # pages)))"
      using Some entry by (simp add: List.map_filter_simps)
    finally show ?thesis .
  qed
qed

lemma map_filter_mem: "y \<in> set (List.map_filter f xs) \<Longrightarrow> \<exists>x \<in> set xs. f x = Some y"
  by (auto simp: List.map_filter_def)

lemma payload_truthy: "c \<noteq> None \<and> c \<noteq> Some [] \<Longrightarrow> payload c = c"
  by (cases c) (simp_all add: payload_def truthy_def)

lemma fetch_loop_pages:
  assumes "\<forall>d \<in> set ps. has_more d" and "\<not> has_more final"
  shows "\<exists>st'. fetch_loop st (map Inr ps @ [Inr final] @ rest) = Some (Inr st') \<and>
      requests st' = requests st @ payload (start_cursor st) # map (\<lambda>d. payload (next_cursor d)) ps \<and>
      existing_tasks st' =
        foldl register_page (existing_tasks st) (concat (map query_results (ps @ [final])))"
  using assms
proof (induction ps arbitrary: st)
  case Nil
  then show ?case by (simp add: Let_def)
next
  case (Cons d ps)
  let ?st = "st\<lparr> requests := requests st @ [payload (start_cursor st)],
      existing_tasks := foldl register_page (existing_tasks st) (query_results d),
      start_cursor := next_cursor d \<rparr>"
  from Cons.prems have more: "has_more d" and later: "\<forall>d \<in> set ps. has_more d"
    by simp_all
  from Cons.IH [OF later Cons.prems(2), of ?st]
  obtain st' where st': "fetch_loop ?st (map Inr ps @ [Inr final] @ rest) = Some (Inr st')"
    "requests st' = requests ?st @ payload (start_cursor ?st) # map (\<lambda>d. payload (next_cursor d)) ps"
    "existing_tasks st' =
      foldl register_page (existing_tasks ?st) (concat (map query_results (ps @ [final])))"
    by blast
  have "fetch_loop st (map Inr (d # ps) @ [Inr final] @ rest) = Some (Inr st')"
    using more st'(1) by (simp add: Let_def)
  moreover have "requests st' =
      requests st @ payload (start_cursor st) # map (\<lambda>d. payload (next_cursor d)) (d # ps)"
    using st'(2) by simp
  moreover have "existing_tasks st' =
      foldl register_page (existing_tasks st) (concat (map query_results ((d # ps) @ [final])))"
    using st'(3) by simp
  ultimately show ?case by blast
qed

lemma fetch_loop_error:
  assumes "\<forall>d \<in> set ps. has_more d"
  shows "fetch_loop st (map Inr ps @ [Inl e] @ rest) = Some (Inl e)"
  using assms by (induction ps arbitrary: st) (simp_all add: Let_def)

lemma fetch_loop_unanswered:
  assumes "\<forall>d \<in> set ps. has_more d"
  shows "fetch_loop st (map Inr ps) = None"
  using assms by (induction ps arbitrary: st) (simp_all add: Let_def)

text \<open>
  C4. When the service answers with pages that all say \<^verbatim>\<open>has_more\<close> and then with a page
  that does not, the loop returns after that page, having sent one request a page: the first
  without a cursor, each later one with the cursor of the response before it (the cursor
  itself when it is a non-empty string). The index it returns holds the entries of the
  records of all these pages, a later record replacing an earlier one of the same title; a
  name is in the index only with the identifier of a record whose first title segment is
  that name and is not empty, and records without such a segment add nothing.
\<close>

theorem index_accumulates_pages:
  assumes "\<forall>d \<in> set ps. has_more d" and "\<not> has_more final"
  shows "\<exists>st. fetch_existing_tasks (map Inr ps @ [Inr final] @ rest) = Some (Inr st) \<and>
      requests st = None # map (\<lambda>d. payload (next_cursor d)) ps \<and>
      ((\<forall>d \<in> set ps. next_cursor d \<noteq> None \<and> next_cursor d \<noteq> Some []) \<longrightarrow>
         requests st = None # map next_cursor ps) \<and>
      existing_tasks st =
        map_of (rev (List.map_filter index_entry (concat (map query_results (ps @ [final]))))) \<and>
      (\<forall>task_name i. existing_tasks st task_name = Some i \<longrightarrow>
         (\<exists>p \<in> set (concat (map query_results (ps @ [final]))).
            title p \<noteq> [] \<and> hd (title p) = Some task_name \<and> task_name \<noteq> [] \<and> page_id p = i))"
proof -
  let ?pages = "concat (map query_results (ps @ [final]))"
  let ?st0 = "\<lparr> existing_tasks = Map.empty, start_cursor = None, requests = [] \<rparr>"
  from fetch_loop_pages [OF assms, of ?st0 rest]
  obtain st where st: "fetch_loop ?st0 (map Inr ps @ [Inr final] @ rest) = Some (Inr st)"
    "requests st = requests ?st0 @ payload (start_cursor ?st0) # map (\<lambda>d. payload (next_cursor d)) ps"
    "existing_tasks st = foldl register_page (existing_tasks ?st0) ?pages"
    by blast
  have returned: "fetch_existing_tasks (map Inr ps @ [Inr final] @ rest) = Some (Inr st)"
    using st(1) by (simp add: fetch_existing_tasks_def)
  have sent: "requests st = None # map (\<lambda>d. payload (next_cursor d)) ps"
    using st(2) by (simp add: payload_def truthy_def)
  have cursors: "requests st = None # map next_cursor ps"
    if "\<forall>d \<in> set ps. next_cursor d \<noteq> None \<and> next_cursor d \<noteq> Some []"
    using that sent by (simp add: payload_truthy)
  have index: "existing_tasks st = map_of (rev (List.map_filter index_entry ?pages))"
    unfolding st(3) foldl_register_page [of _ ?pages] by simp
  have only: "\<exists>p \<in> set ?pages.
      title p \<noteq> [] \<and> hd (title p) = Some task_name \<and> task_name \<noteq> [] \<and> page_id p = i"
    if "existing_tasks st task_name = Some i" for task_name i
  proof -
    have "map_of (rev (List.map_filter index_entry ?pages)) task_name = Some i"
      using that unfolding index .
    then have "(task_name, i) \<in> set (rev (List.map_filter index_entry ?pages))"
      by (rule map_of_SomeD)
    then have "(task_name, i) \<in> set (List.map_filter index_entry ?pages)"
      by (simp only: set_rev)
    then obtain p where p: "p \<in> set ?pages" "index_entry p = Some (task_name, i)"
      by (blast dest: map_filter_mem)
    from p(2) have "title p \<noteq> [] \<and> hd (title p) = Some task_name \<and> task_name \<noteq> [] \<and> page_id p = i"
      by (auto simp: index_entry_def split: list.splits option.splits if_splits)
    with p(1) show ?thesis by blast
  qed
  from returned sent cursors index only show ?thesis by blast
qed

theorem index_accumulates_pages_witness:
  "\<exists>st. fetch_existing_tasks
      [Inr \<lparr> query_results = [\<lparr> page_id = ''id1'', title = [Some ''A''] \<rparr>,
                               \<lparr> page_id = ''id2'', title = [] \<rparr>],
             has_more = True, next_cursor = Some ''c1'' \<rparr>,
       Inr \<lparr> query_results = [\<lparr> page_id = ''id3'', title = [Some ''B'', Some ''x''] \<rparr>,
                               \<lparr> page_id = ''id4'', title = [Some ''''] \<rparr>,
                               \<lparr> page_id = ''id5'', title = [None, Some ''C''] \<rparr>],
             has_more = False, next_cursor = None \<rparr>] = Some (Inr st) \<and>
     requests st = [None, Some ''c1''] \<and>
     existing_tasks st ''A'' = Some ''id1'' \<and>
     existing_tasks st ''B'' = Some ''id3'' \<and>
     existing_tasks st ''C'' = None \<and>
     existing_tasks st '''' = None"
proof -
  let ?d1 = "\<lparr> query_results = [\<lparr> page_id = ''id1'', title = [Some ''A''] \<rparr>,
                               \<lparr> page_id = ''id2'', title = [] \<rparr>],
             has_more = True, next_cursor = Some ''c1'' \<rparr>"
  let ?d2 = "\<lparr> query_results = [\<lparr> page_id = ''id3'', title = [Some ''B'', Some ''x''] \<rparr>,
                               \<lparr> page_id = ''id4'', title = [Some ''''] \<rparr>,
                               \<lparr> page_id = ''id5'', title = [None, Some ''C''] \<rparr>],
             has_more = False, next_cursor = None \<rparr>"
  have more: "\<forall>d \<in> set [?d1]. has_more d" by simp
  have stop: "\<not> has_more ?d2" by simp
  from index_accumulates_pages [of "[?d1]" ?d2 "[]", OF more stop]
  obtain st where st: "fetch_existing_tasks (map Inr [?d1] @ [Inr ?d2] @ []) = Some (Inr st)"
    "(\<forall>d \<in> set [?d1]. next_cursor d \<noteq> None \<and> next_cursor d \<noteq> Some []) \<longrightarrow>
       requests st = None # map next_cursor [?d1]"
    "existing_tasks st =
       map_of (rev (List.map_filter index_entry (concat (map query_results ([?d1] @ [?d2])))))"
    by blast
  have a: "fetch_existing_tasks [Inr ?d1, Inr ?d2] = Some (Inr st)"
    using st(1) by simp
  have b: "requests st = [None, Some ''c1'']"
    using st(2) by simp
  have c: "existing_tasks st ''A'' = Some ''id1''" "existing_tasks st ''B'' = Some ''id3''"
    "existing_tasks st ''C'' = None" "existing_tasks st '''' = None"
    unfolding st(3) by (simp_all add: List.map_filter_simps index_entry_def)
  from a b c show ?thesis by blast
qed

end
